theory Spec2Isabelle
  imports Main "HOL-Library.Word"
begin

section \<open>FringeStageVote: session registry and vote aggregation\<close>

text \<open>
  A shallow embedding of the contract \<^verbatim>\<open>contracts/FringeStageVote.sol\<close>.
  Solidity's \<^verbatim>\<open>uint256\<close> and \<^verbatim>\<open>uint16\<close> are words of that width, an
  \<^verbatim>\<open>address\<close> is a 160-bit word. Arithmetic of Solidity 0.8 is checked: an
  overflowing \<^verbatim>\<open>++\<close> and a division by zero revert with a panic, which the model
  writes out. A revert is the value \<open>Inl\<close> of an error; a transaction that reverts
  leaves the storage as it was.
\<close>

subsection \<open>Machine types\<close>

type_synonym uint256 = "256 word"
type_synonym uint16 = "16 word"
type_synonym address = "160 word"
type_synonym bytes32 = "256 word"
type_synonym bytes = "8 word list"

subsection \<open>Errors\<close>

text \<open>
  The custom errors of the contract in their order of declaration, the two string
  reverts of \<^verbatim>\<open>storeDecryptedResults\<close> and \<^verbatim>\<open>getDecryptedResults\<close> as
  \<open>Revert\<close>, the compiler's panics (code 17 is arithmetic overflow, code 18 is
  division by zero), and the rejection of an input proof by the encryption runtime.
\<close>

datatype error =
    SessionNotFound
  | SessionNotActive
  | SessionNotEnded
  | AlreadyVoted
  | UnauthorizedTheater
  | InsufficientVotes
  | InvalidRatingValue
  | DecryptionAlreadyRequested
  | OnlyTheaterCompany
  | SessionStillActive
  | Revert string
  | Panic nat
  | InvalidInputProof

subsection \<open>The encryption runtime\<close>

text \<open>
  The library \<^verbatim>\<open>@fhevm/solidity/lib/FHE.sol\<close> is imported by the contract and is
  not part of its sources. A ciphertext handle is opaque to the contract: the model
  keeps it as the term of the operations that produced it, and \<open>decrypt\<close> gives the
  16-bit plaintext behind a handle. The runtime lets a contract compute on a handle
  only if the contract is allowed on it; the contract allows itself on every
  accumulator it writes, so these checks pass and the model leaves them out. The
  permissions granted are recorded in the storage below.
\<close>

text \<open>Modelled from the spec: the client's encrypted input of \<^verbatim>\<open>FHE.sol\<close>, which
  is missing; an input is an opaque handle for a 16-bit plaintext together with the
  proof that validates it.\<close>
datatype externalEuint16 = ExternalEuint16 (ext_plain: uint16) (ext_proof: bytes)

text \<open>Modelled from the spec: the type \<^verbatim>\<open>euint16\<close> of \<^verbatim>\<open>FHE.sol\<close>, which is
  missing; \<open>Uninitialized\<close> is the zero handle of a storage slot never written.\<close>
datatype euint16 =
    Uninitialized
  | AsEuint16 uint16
  | FromExternal externalEuint16
  | FheAdd euint16 euint16

text \<open>Modelled from the spec: decryption of a handle, done off-chain by the runtime
  that is missing; the accumulator is a running sum of 16-bit values, so the
  homomorphic addition is the addition of \<^verbatim>\<open>uint16\<close>.\<close>
fun decrypt :: "euint16 \<Rightarrow> uint16" where
  "decrypt Uninitialized = 0"
| "decrypt (AsEuint16 v) = v"
| "decrypt (FromExternal x) = ext_plain x"
| "decrypt (FheAdd a b) = decrypt a + decrypt b"

text \<open>Modelled from the spec: \<^verbatim>\<open>FHE.fromExternal\<close> of \<^verbatim>\<open>FHE.sol\<close>, which is
  missing; each submitted ciphertext is validated against its accompanying proof and
  converted into the internal encrypted representation.\<close>
definition fromExternal :: "externalEuint16 \<Rightarrow> bytes \<Rightarrow> error + euint16" where
  "fromExternal inp prf =
     (if prf = ext_proof inp then Inr (FromExternal inp) else Inl InvalidInputProof)"

subsection \<open>Data model\<close>

record Session =
  title :: string
  venue :: string
  startTime :: uint256
  endTime :: uint256
  theaterCompany :: address
  voteCount :: uint256
  isActive :: bool
  decryptionRequested :: bool
  decryptionCompleted :: bool
  aggregatedPlotTension :: euint16
  aggregatedPerformance :: euint16
  aggregatedStageDesign :: euint16
  aggregatedPacing :: euint16

record DecryptedResults =
  totalPlotTension :: uint16
  totalPerformance :: uint16
  totalStageDesign :: uint16
  totalPacing :: uint16

datatype event =
    SessionCreated uint256 string string uint256 uint256 address
  | VoteSubmitted uint256 address uint256
  | TheaterAuthorized uint256 address
  | DecryptionRequested uint256 address
  | DecryptionCompleted uint256 uint16 uint16 uint16 uint16

text \<open>
  The storage of the contract: its five state variables (a Solidity mapping is a total
  function, every key holding the zero value until written), then the permissions the
  contract grants on ciphertext handles through \<^verbatim>\<open>FHE.allow\<close> and
  \<^verbatim>\<open>FHE.allowThis\<close>, and the log of emitted events.
\<close>

record storage =
  st_nextSessionId :: uint256
  st_sessions :: "uint256 \<Rightarrow> Session"
  st_decryptedResults :: "uint256 \<Rightarrow> DecryptedResults"
  st_hasVoted :: "uint256 \<Rightarrow> address \<Rightarrow> bool"
  st_authorizedTheaters :: "uint256 \<Rightarrow> address \<Rightarrow> bool"
  st_allowed :: "(euint16 \<times> address) set"
  st_events :: "event list"

text \<open>What a call sees of its transaction: \<^verbatim>\<open>msg.sender\<close>,
  \<^verbatim>\<open>block.timestamp\<close> and \<^verbatim>\<open>address(this)\<close>.\<close>

record env =
  msg_sender :: address
  block_timestamp :: uint256
  address_this :: address

definition zero_session :: Session where
  "zero_session =
     \<lparr> title = [], venue = [], startTime = 0, endTime = 0, theaterCompany = 0,
       voteCount = 0, isActive = False, decryptionRequested = False,
       decryptionCompleted = False,
       aggregatedPlotTension = Uninitialized, aggregatedPerformance = Uninitialized,
       aggregatedStageDesign = Uninitialized, aggregatedPacing = Uninitialized \<rparr>"

definition zero_results :: DecryptedResults where
  "zero_results =
     \<lparr> totalPlotTension = 0, totalPerformance = 0, totalStageDesign = 0, totalPacing = 0 \<rparr>"

text \<open>The storage of the freshly deployed contract.\<close>

definition deployed :: storage where
  "deployed =
     \<lparr> st_nextSessionId = 0,
       st_sessions = (\<lambda>_. zero_session),
       st_decryptedResults = (\<lambda>_. zero_results),
       st_hasVoted = (\<lambda>_ _. False),
       st_authorizedTheaters = (\<lambda>_ _. False),
       st_allowed = {},
       st_events = [] \<rparr>"

definition MIN_VOTES_FOR_DECRYPTION :: uint256 where
  "MIN_VOTES_FOR_DECRYPTION = 1"

subsection \<open>Helpers on the storage\<close>

definition set_session :: "uint256 \<Rightarrow> Session \<Rightarrow> storage \<Rightarrow> storage" where
  "set_session sessionId session s = s\<lparr>st_sessions := (st_sessions s)(sessionId := session)\<rparr>"

definition emit :: "event \<Rightarrow> storage \<Rightarrow> storage" where
  "emit ev s = s\<lparr>st_events := st_events s @ [ev]\<rparr>"

text \<open>\<^verbatim>\<open>FHE.allow(handle, account)\<close>; \<^verbatim>\<open>FHE.allowThis(handle)\<close> is the same
  with the contract's own address.\<close>

definition allow :: "euint16 \<Rightarrow> address \<Rightarrow> storage \<Rightarrow> storage" where
  "allow h a s = s\<lparr>st_allowed := insert (h, a) (st_allowed s)\<rparr>"

definition allow_aggregates :: "Session \<Rightarrow> address \<Rightarrow> storage \<Rightarrow> storage" where
  "allow_aggregates session a s =
     allow (aggregatedPacing session) a
       (allow (aggregatedStageDesign session) a
         (allow (aggregatedPerformance session) a
           (allow (aggregatedPlotTension session) a s)))"

subsection \<open>Mutating operations\<close>

text \<open>\<^verbatim>\<open>createSession\<close>: the post-increment of \<^verbatim>\<open>_nextSessionId\<close> is checked;
  the fields of the session's slot are assigned one by one, the others keep what the
  slot held.\<close>

definition createSession ::
  "env \<Rightarrow> string \<Rightarrow> string \<Rightarrow> uint256 \<Rightarrow> uint256 \<Rightarrow> storage \<Rightarrow> error + (uint256 \<times> storage)" where
  "createSession e title' venue' startTime' endTime' s =
     (if st_nextSessionId s = - 1 then Inl (Panic 17)
      else
        let sessionId = st_nextSessionId s;
            s1 = s\<lparr>st_nextSessionId := sessionId + 1\<rparr>;
            session = (st_sessions s1 sessionId)
              \<lparr> title := title', venue := venue', startTime := startTime',
                endTime := endTime', theaterCompany := msg_sender e, isActive := True,
                aggregatedPlotTension := AsEuint16 0, aggregatedPerformance := AsEuint16 0,
                aggregatedStageDesign := AsEuint16 0, aggregatedPacing := AsEuint16 0 \<rparr>;
            s2 = set_session sessionId session s1;
            s3 = allow_aggregates session (address_this e) s2;
            s4 = s3\<lparr>st_authorizedTheaters :=
                    (st_authorizedTheaters s3)
                      (sessionId := (st_authorizedTheaters s3 sessionId)(msg_sender e := True))\<rparr>;
            s5 = emit (SessionCreated sessionId title' venue' startTime' endTime' (msg_sender e)) s4;
            s6 = emit (TheaterAuthorized sessionId (msg_sender e)) s5
        in Inr (sessionId, s6))"

definition validateVote :: "env \<Rightarrow> uint256 \<Rightarrow> storage \<Rightarrow> error + unit" where
  "validateVote e sessionId s =
     (let session = st_sessions s sessionId in
      if startTime session = 0 then Inl SessionNotFound
      else if \<not> isActive session then Inl SessionNotActive
      else if block_timestamp e < startTime session \<or> block_timestamp e > endTime session
        then Inl SessionNotActive
      else if st_hasVoted s sessionId (msg_sender e) then Inl AlreadyVoted
      else Inr ())"

definition processVote ::
  "env \<Rightarrow> uint256 \<Rightarrow> externalEuint16 \<Rightarrow> bytes \<Rightarrow> externalEuint16 \<Rightarrow> bytes \<Rightarrow>
   externalEuint16 \<Rightarrow> bytes \<Rightarrow> externalEuint16 \<Rightarrow> bytes \<Rightarrow> storage \<Rightarrow> error + storage" where
  "processVote e sessionId inputPlotTension proofPlotTension inputPerformance proofPerformance
       inputStageDesign proofStageDesign inputPacing proofPacing s =
     (let session = st_sessions s sessionId in
      case fromExternal inputPlotTension proofPlotTension of Inl err \<Rightarrow> Inl err
      | Inr encryptedPlotTension \<Rightarrow>
      case fromExternal inputPerformance proofPerformance of Inl err \<Rightarrow> Inl err
      | Inr encryptedPerformance \<Rightarrow>
      case fromExternal inputStageDesign proofStageDesign of Inl err \<Rightarrow> Inl err
      | Inr encryptedStageDesign \<Rightarrow>
      case fromExternal inputPacing proofPacing of Inl err \<Rightarrow> Inl err
      | Inr encryptedPacing \<Rightarrow>
        let session1 = session
              \<lparr> aggregatedPlotTension := FheAdd (aggregatedPlotTension session) encryptedPlotTension,
                aggregatedPerformance := FheAdd (aggregatedPerformance session) encryptedPerformance,
                aggregatedStageDesign := FheAdd (aggregatedStageDesign session) encryptedStageDesign,
                aggregatedPacing := FheAdd (aggregatedPacing session) encryptedPacing \<rparr>;
            s1 = s\<lparr>st_hasVoted :=
                    (st_hasVoted s)(sessionId := (st_hasVoted s sessionId)(msg_sender e := True))\<rparr>
        in if voteCount session1 = - 1 then Inl (Panic 17)
           else
             let session2 = session1\<lparr>voteCount := voteCount session1 + 1\<rparr>;
                 s2 = set_session sessionId session2 s1
             in Inr (allow_aggregates session2 (address_this e) s2))"

text \<open>\<^verbatim>\<open>submitVote\<close>: the last argument is the comment hash, which the source
  leaves unnamed.\<close>

definition submitVote ::
  "env \<Rightarrow> uint256 \<Rightarrow> externalEuint16 \<Rightarrow> bytes \<Rightarrow> externalEuint16 \<Rightarrow> bytes \<Rightarrow>
   externalEuint16 \<Rightarrow> bytes \<Rightarrow> externalEuint16 \<Rightarrow> bytes \<Rightarrow> bytes32 \<Rightarrow> storage \<Rightarrow> error + storage" where
  "submitVote e sessionId inputPlotTension proofPlotTension inputPerformance proofPerformance
       inputStageDesign proofStageDesign inputPacing proofPacing commentHash s =
     (case validateVote e sessionId s of Inl err \<Rightarrow> Inl err
      | Inr _ \<Rightarrow>
        (case processVote e sessionId inputPlotTension proofPlotTension inputPerformance
                proofPerformance inputStageDesign proofStageDesign inputPacing proofPacing s of
           Inl err \<Rightarrow> Inl err
         | Inr s1 \<Rightarrow>
             Inr (emit (VoteSubmitted sessionId (msg_sender e)
                          (voteCount (st_sessions s1 sessionId))) s1)))"

definition authorizeTheater :: "env \<Rightarrow> uint256 \<Rightarrow> address \<Rightarrow> storage \<Rightarrow> error + storage" where
  "authorizeTheater e sessionId theaterAddress s =
     (let session = st_sessions s sessionId in
      if startTime session = 0 then Inl SessionNotFound
      else if msg_sender e \<noteq> theaterCompany session then Inl OnlyTheaterCompany
      else
        let s1 = s\<lparr>st_authorizedTheaters :=
                    (st_authorizedTheaters s)
                      (sessionId := (st_authorizedTheaters s sessionId)(theaterAddress := True))\<rparr>;
            s2 = allow_aggregates session theaterAddress s1
        in Inr (emit (TheaterAuthorized sessionId theaterAddress) s2))"

definition requestDecryption :: "env \<Rightarrow> uint256 \<Rightarrow> storage \<Rightarrow> error + storage" where
  "requestDecryption e sessionId s =
     (let session = st_sessions s sessionId in
      if startTime session = 0 then Inl SessionNotFound
      else if \<not> st_authorizedTheaters s sessionId (msg_sender e) then Inl UnauthorizedTheater
      else if isActive session \<and> block_timestamp e \<le> endTime session then Inl SessionStillActive
      else if voteCount session < MIN_VOTES_FOR_DECRYPTION then Inl InsufficientVotes
      else if decryptionRequested session then Inl DecryptionAlreadyRequested
      else
        let session1 = session\<lparr>decryptionRequested := True\<rparr>;
            s1 = set_session sessionId session1 s;
            s2 = allow_aggregates session1 (msg_sender e) s1
        in Inr (emit (DecryptionRequested sessionId (msg_sender e)) s2))"

definition endSession :: "env \<Rightarrow> uint256 \<Rightarrow> storage \<Rightarrow> error + storage" where
  "endSession e sessionId s =
     (let session = st_sessions s sessionId in
      if startTime session = 0 then Inl SessionNotFound
      else if msg_sender e \<noteq> theaterCompany session then Inl OnlyTheaterCompany
      else Inr (set_session sessionId (session\<lparr>isActive := False\<rparr>) s))"

text \<open>The average of the source, \<^verbatim>\<open>voteCount > 0 ? total / uint16(voteCount) : 0\<close>:
  the cast keeps the low 16 bits of the count, and the division is checked.\<close>

definition average :: "uint16 \<Rightarrow> uint256 \<Rightarrow> error + uint16" where
  "average tot voteCount' =
     (if voteCount' > 0
      then (if (ucast voteCount' :: uint16) = 0 then Inl (Panic 18)
            else Inr (tot div ucast voteCount'))
      else Inr 0)"

definition storeDecryptedResults ::
  "env \<Rightarrow> uint256 \<Rightarrow> uint16 \<Rightarrow> uint16 \<Rightarrow> uint16 \<Rightarrow> uint16 \<Rightarrow> storage \<Rightarrow> error + storage" where
  "storeDecryptedResults e sessionId totalPlotTension' totalPerformance' totalStageDesign'
       totalPacing' s =
     (let session = st_sessions s sessionId in
      if startTime session = 0 then Inl SessionNotFound
      else if \<not> st_authorizedTheaters s sessionId (msg_sender e) then Inl UnauthorizedTheater
      else if \<not> decryptionRequested session then Inl (Revert ''Decryption not requested'')
      else if decryptionCompleted session then Inl (Revert ''Results already stored'')
      else
        let s1 = s\<lparr>st_decryptedResults := (st_decryptedResults s)(sessionId :=
                      \<lparr> totalPlotTension = totalPlotTension',
                        totalPerformance = totalPerformance',
                        totalStageDesign = totalStageDesign',
                        totalPacing = totalPacing' \<rparr>)\<rparr>;
            session1 = session\<lparr>decryptionCompleted := True\<rparr>;
            s2 = set_session sessionId session1 s1;
            voteCount' = voteCount session1
        in case average totalPlotTension' voteCount' of Inl err \<Rightarrow> Inl err
           | Inr avgPlotTension \<Rightarrow>
           case average totalPerformance' voteCount' of Inl err \<Rightarrow> Inl err
           | Inr avgPerformance \<Rightarrow>
           case average totalStageDesign' voteCount' of Inl err \<Rightarrow> Inl err
           | Inr avgStageDesign \<Rightarrow>
           case average totalPacing' voteCount' of Inl err \<Rightarrow> Inl err
           | Inr avgPacing \<Rightarrow>
             Inr (emit (DecryptionCompleted sessionId avgPlotTension avgPerformance
                          avgStageDesign avgPacing) s2))"

subsection \<open>Read operations\<close>

text \<open>The \<^verbatim>\<open>view\<close> functions take the storage and return a value or an error; they
  return no storage, as a \<^verbatim>\<open>view\<close> function cannot write.\<close>

definition hasVoted :: "uint256 \<Rightarrow> address \<Rightarrow> storage \<Rightarrow> error + bool" where
  "hasVoted sessionId voter s = Inr (st_hasVoted s sessionId voter)"

definition isAuthorized :: "uint256 \<Rightarrow> address \<Rightarrow> storage \<Rightarrow> error + bool" where
  "isAuthorized sessionId theaterAddress s = Inr (st_authorizedTheaters s sessionId theaterAddress)"

definition getSessionInfo ::
  "uint256 \<Rightarrow> storage \<Rightarrow>
   error + (string \<times> string \<times> uint256 \<times> uint256 \<times> address \<times> uint256 \<times> bool \<times> bool \<times> bool)" where
  "getSessionInfo sessionId s =
     (let session = st_sessions s sessionId in
      if startTime session = 0 then Inl SessionNotFound
      else Inr (title session, venue session, startTime session, endTime session,
                theaterCompany session, voteCount session, isActive session,
                decryptionRequested session, decryptionCompleted session))"

definition getEncryptedAggregates ::
  "uint256 \<Rightarrow> storage \<Rightarrow> error + (euint16 \<times> euint16 \<times> euint16 \<times> euint16)" where
  "getEncryptedAggregates sessionId s =
     (let session = st_sessions s sessionId in
      if startTime session = 0 then Inl SessionNotFound
      else Inr (aggregatedPlotTension session, aggregatedPerformance session,
                aggregatedStageDesign session, aggregatedPacing session))"

definition getTotalSessions :: "storage \<Rightarrow> error + uint256" where
  "getTotalSessions s = Inr (st_nextSessionId s)"

definition getDecryptedResults ::
  "uint256 \<Rightarrow> storage \<Rightarrow>
   error + (uint16 \<times> uint16 \<times> uint16 \<times> uint16 \<times> uint16 \<times> uint16 \<times> uint16 \<times> uint16 \<times> uint256)" where
  "getDecryptedResults sessionId s =
     (let session = st_sessions s sessionId in
      if startTime session = 0 then Inl SessionNotFound
      else if \<not> decryptionCompleted session then Inl (Revert ''Results not yet decrypted'')
      else
        let results = st_decryptedResults s sessionId;
            voteCount' = voteCount session
        in case average (totalPlotTension results) voteCount' of Inl err \<Rightarrow> Inl err
           | Inr avgPlotTension \<Rightarrow>
           case average (totalPerformance results) voteCount' of Inl err \<Rightarrow> Inl err
           | Inr avgPerformance \<Rightarrow>
           case average (totalStageDesign results) voteCount' of Inl err \<Rightarrow> Inl err
           | Inr avgStageDesign \<Rightarrow>
           case average (totalPacing results) voteCount' of Inl err \<Rightarrow> Inl err
           | Inr avgPacing \<Rightarrow>
             Inr (totalPlotTension results, totalPerformance results,
                  totalStageDesign results, totalPacing results,
                  avgPlotTension, avgPerformance, avgStageDesign, avgPacing, voteCount'))"

subsection \<open>Transactions\<close>

text \<open>
  The external entry points that write, as one datatype of calls. A transaction is a
  call in its environment; it is applied atomically, and one that reverts leaves the
  storage unchanged.
\<close>

datatype call =
    CreateSession string string uint256 uint256
  | SubmitVote uint256 externalEuint16 bytes externalEuint16 bytes
      externalEuint16 bytes externalEuint16 bytes bytes32
  | AuthorizeTheater uint256 address
  | RequestDecryption uint256
  | EndSession uint256
  | StoreDecryptedResults uint256 uint16 uint16 uint16 uint16

fun exec :: "env \<Rightarrow> call \<Rightarrow> storage \<Rightarrow> error + storage" where
  "exec e (CreateSession t v st en) s =
     (case createSession e t v st en s of Inl err \<Rightarrow> Inl err | Inr (_, s') \<Rightarrow> Inr s')"
| "exec e (SubmitVote sid i1 p1 i2 p2 i3 p3 i4 p4 h) s = submitVote e sid i1 p1 i2 p2 i3 p3 i4 p4 h s"
| "exec e (AuthorizeTheater sid a) s = authorizeTheater e sid a s"
| "exec e (RequestDecryption sid) s = requestDecryption e sid s"
| "exec e (EndSession sid) s = endSession e sid s"
| "exec e (StoreDecryptedResults sid t1 t2 t3 t4) s = storeDecryptedResults e sid t1 t2 t3 t4 s"

definition transact :: "env \<times> call \<Rightarrow> storage \<Rightarrow> storage" where
  "transact tx s = (case exec (fst tx) (snd tx) s of Inl _ \<Rightarrow> s | Inr s' \<Rightarrow> s')"

fun run :: "(env \<times> call) list \<Rightarrow> storage \<Rightarrow> storage" where
  "run [] s = s"
| "run (tx # txs) s = run txs (transact tx s)"

subsection \<open>A scenario\<close>

text \<open>
  A scenario on which the operations are evaluated: a
  session "Hamlet Preview" at "Small Theater", open from time 1000 to time 4600,
  created by the address 7, and three voters 10, 11 and 12 with the ratings
  (80, 85, 75, 90), (90, 88, 82, 85) and (85, 90, 88, 87).
\<close>

definition env_at :: "address \<Rightarrow> uint256 \<Rightarrow> env" where
  "env_at who t = \<lparr> msg_sender = who, block_timestamp = t, address_this = 0xC0DE \<rparr>"

definition rating :: "uint16 \<Rightarrow> externalEuint16" where
  "rating v = ExternalEuint16 v []"

definition vote :: "uint256 \<Rightarrow> uint16 \<Rightarrow> uint16 \<Rightarrow> uint16 \<Rightarrow> uint16 \<Rightarrow> call" where
  "vote sid a b c d = SubmitVote sid (rating a) [] (rating b) [] (rating c) [] (rating d) [] 0"

definition hamlet_txs :: "(env \<times> call) list" where
  "hamlet_txs =
     [(env_at 7 1000, CreateSession ''Hamlet Preview'' ''Small Theater'' 1000 4600),
      (env_at 10 1500, vote 0 80 85 75 90),
      (env_at 11 1600, vote 0 90 88 82 85),
      (env_at 12 1700, vote 0 85 90 88 87)]"

definition hamlet :: storage where
  "hamlet = run hamlet_txs deployed"

text \<open>The scenario continued: the creator ends the session and requests decryption.\<close>

definition hamlet_closed_txs :: "(env \<times> call) list" where
  "hamlet_closed_txs =
     hamlet_txs @ [(env_at 7 1800, EndSession 0), (env_at 7 1900, RequestDecryption 0)]"

subsection \<open>The ballots of a run\<close>

text \<open>
  The plaintext ratings behind the votes that a sequence of transactions casts with
  success in a session, in order, and their sum as a natural number. The contract
  never sees them; they are what the accumulators are compared with.
\<close>

record ballot =
  b_plotTension :: uint16
  b_performance :: uint16
  b_stageDesign :: uint16
  b_pacing :: uint16

fun rated :: "uint256 \<Rightarrow> call \<Rightarrow> ballot list" where
  "rated sid (SubmitVote k i1 p1 i2 p2 i3 p3 i4 p4 h) =
     (if k = sid
      then [\<lparr> b_plotTension = ext_plain i1, b_performance = ext_plain i2,
               b_stageDesign = ext_plain i3, b_pacing = ext_plain i4 \<rparr>]
      else [])"
| "rated sid c = []"

definition ballots_of_tx :: "uint256 \<Rightarrow> env \<times> call \<Rightarrow> storage \<Rightarrow> ballot list" where
  "ballots_of_tx sid tx s =
     (case exec (fst tx) (snd tx) s of Inl err \<Rightarrow> [] | Inr s' \<Rightarrow> rated sid (snd tx))"

fun ballots :: "uint256 \<Rightarrow> (env \<times> call) list \<Rightarrow> storage \<Rightarrow> ballot list" where
  "ballots sid [] s = []"
| "ballots sid (tx # txs) s = ballots_of_tx sid tx s @ ballots sid txs (transact tx s)"

definition exact_sum :: "(ballot \<Rightarrow> uint16) \<Rightarrow> ballot list \<Rightarrow> nat" where
  "exact_sum f bs = sum_list (map (\<lambda>b. unat (f b)) bs)"

text \<open>
  A full house: the same session alone, and \<open>n\<close> voters with the addresses 1 to
  \<open>n\<close> who all give the top rating 100 in every dimension; then the creator ends
  the session, requests decryption and stores the totals 100.
\<close>

definition premiere_txs :: "(env \<times> call) list" where
  "premiere_txs = [(env_at 7 1000, CreateSession ''Hamlet Preview'' ''Small Theater'' 1000 4600)]"

definition premiere :: storage where
  "premiere = run premiere_txs deployed"

definition full_house :: "nat \<Rightarrow> (env \<times> call) list" where
  "full_house n = map (\<lambda>i. (env_at (word_of_nat (Suc i)) 1500, vote 0 100 100 100 100)) [0..<n]"

definition top_marks :: ballot where
  "top_marks = \<lparr> b_plotTension = 100, b_performance = 100, b_stageDesign = 100, b_pacing = 100 \<rparr>"

definition closing :: "(env \<times> call) list" where
  "closing = [(env_at 7 1800, EndSession 0), (env_at 7 1900, RequestDecryption 0),
              (env_at 7 2000, StoreDecryptedResults 0 100 100 100 100)]"

subsection \<open>Invariants of the storage\<close>

text \<open>
  Session ids are handed out in sequence, so every slot from \<open>st_nextSessionId\<close> on
  still holds the zero value of each mapping.
\<close>

definition fresh_above :: "storage \<Rightarrow> bool" where
  "fresh_above s \<longleftrightarrow>
     (\<forall>sid. st_nextSessionId s \<le> sid \<longrightarrow>
        st_sessions s sid = zero_session \<and> st_hasVoted s sid = (\<lambda>_. False) \<and>
        st_authorizedTheaters s sid = (\<lambda>_. False) \<and> st_decryptedResults s sid = zero_results)"

text \<open>The vote count of every session is the number of addresses flagged as having voted.\<close>

definition votes_counted :: "storage \<Rightarrow> bool" where
  "votes_counted s \<longleftrightarrow>
     (\<forall>sid. unat (voteCount (st_sessions s sid)) = card {a. st_hasVoted s sid a})"

text \<open>The accumulators of every session decrypt to the 16-bit sums of a tally of ballots,
  which is empty for the ids not yet handed out.\<close>

definition tallied :: "storage \<Rightarrow> (uint256 \<Rightarrow> ballot list) \<Rightarrow> bool" where
  "tallied s T \<longleftrightarrow>
     fresh_above s \<and>
     (\<forall>sid. st_nextSessionId s \<le> sid \<longrightarrow> T sid = []) \<and>
     (\<forall>sid.
        decrypt (aggregatedPlotTension (st_sessions s sid)) = sum_list (map b_plotTension (T sid)) \<and>
        decrypt (aggregatedPerformance (st_sessions s sid)) = sum_list (map b_performance (T sid)) \<and>
        decrypt (aggregatedStageDesign (st_sessions s sid)) = sum_list (map b_stageDesign (T sid)) \<and>
        decrypt (aggregatedPacing (st_sessions s sid)) = sum_list (map b_pacing (T sid)))"

section \<open>Properties\<close>

subsection \<open>What each operation writes\<close>

lemmas scenario_defs =
  env_at_def rating_def vote_def hamlet_txs_def hamlet_def deployed_def zero_session_def
  zero_results_def transact_def createSession_def submitVote_def validateVote_def
  processVote_def fromExternal_def set_session_def emit_def allow_def allow_aggregates_def
  Let_def requestDecryption_def endSession_def storeDecryptedResults_def average_def
  MIN_VOTES_FOR_DECRYPTION_def authorizeTheater_def

lemma st_set_session [simp]:
  "st_sessions (set_session sid x s) = (st_sessions s)(sid := x)"
  "st_nextSessionId (set_session sid x s) = st_nextSessionId s"
  "st_decryptedResults (set_session sid x s) = st_decryptedResults s"
  "st_hasVoted (set_session sid x s) = st_hasVoted s"
  "st_authorizedTheaters (set_session sid x s) = st_authorizedTheaters s"
  "st_allowed (set_session sid x s) = st_allowed s"
  "st_events (set_session sid x s) = st_events s"
  by (simp_all add: set_session_def)

lemma st_emit [simp]:
  "st_sessions (emit ev s) = st_sessions s"
  "st_nextSessionId (emit ev s) = st_nextSessionId s"
  "st_decryptedResults (emit ev s) = st_decryptedResults s"
  "st_hasVoted (emit ev s) = st_hasVoted s"
  "st_authorizedTheaters (emit ev s) = st_authorizedTheaters s"
  "st_allowed (emit ev s) = st_allowed s"
  "st_events (emit ev s) = st_events s @ [ev]"
  by (simp_all add: emit_def)

lemma st_allow_aggregates [simp]:
  "st_sessions (allow_aggregates x a s) = st_sessions s"
  "st_nextSessionId (allow_aggregates x a s) = st_nextSessionId s"
  "st_decryptedResults (allow_aggregates x a s) = st_decryptedResults s"
  "st_hasVoted (allow_aggregates x a s) = st_hasVoted s"
  "st_authorizedTheaters (allow_aggregates x a s) = st_authorizedTheaters s"
  "st_events (allow_aggregates x a s) = st_events s"
  by (simp_all add: allow_aggregates_def allow_def)

text \<open>The conditions under which an operation succeeds, and the storage it leaves.\<close>

lemma createSession_Inr:
  assumes "createSession e t v st en s = Inr (sid, s')"
  shows "sid = st_nextSessionId s" "st_nextSessionId s \<noteq> - 1"
    "st_nextSessionId s' = st_nextSessionId s + 1"
    "st_sessions s' = (st_sessions s)(sid := (st_sessions s sid)
        \<lparr> title := t, venue := v, startTime := st, endTime := en,
          theaterCompany := msg_sender e, isActive := True,
          aggregatedPlotTension := AsEuint16 0, aggregatedPerformance := AsEuint16 0,
          aggregatedStageDesign := AsEuint16 0, aggregatedPacing := AsEuint16 0 \<rparr>)"
    "st_hasVoted s' = st_hasVoted s"
    "st_decryptedResults s' = st_decryptedResults s"
    "st_authorizedTheaters s' = (st_authorizedTheaters s)
        (sid := (st_authorizedTheaters s sid)(msg_sender e := True))"
  using assms by (auto simp: createSession_def Let_def split: if_splits)

lemma processVote_Inr:
  assumes "processVote e sid i1 p1 i2 p2 i3 p3 i4 p4 s = Inr s'"
  shows "voteCount (st_sessions s sid) \<noteq> - 1"
    "st_nextSessionId s' = st_nextSessionId s"
    "st_sessions s' = (st_sessions s)(sid := (st_sessions s sid)
        \<lparr> aggregatedPlotTension := FheAdd (aggregatedPlotTension (st_sessions s sid)) (FromExternal i1),
          aggregatedPerformance := FheAdd (aggregatedPerformance (st_sessions s sid)) (FromExternal i2),
          aggregatedStageDesign := FheAdd (aggregatedStageDesign (st_sessions s sid)) (FromExternal i3),
          aggregatedPacing := FheAdd (aggregatedPacing (st_sessions s sid)) (FromExternal i4),
          voteCount := voteCount (st_sessions s sid) + 1 \<rparr>)"
    "st_hasVoted s' = (st_hasVoted s)(sid := (st_hasVoted s sid)(msg_sender e := True))"
    "st_decryptedResults s' = st_decryptedResults s"
    "st_authorizedTheaters s' = st_authorizedTheaters s"
  using assms
  by (auto simp: processVote_def fromExternal_def Let_def split: if_splits)

lemma submitVote_Inr:
  assumes "submitVote e sid i1 p1 i2 p2 i3 p3 i4 p4 h s = Inr s'"
  shows "startTime (st_sessions s sid) \<noteq> 0" "isActive (st_sessions s sid)"
    "startTime (st_sessions s sid) \<le> block_timestamp e"
    "block_timestamp e \<le> endTime (st_sessions s sid)"
    "\<not> st_hasVoted s sid (msg_sender e)"
    "voteCount (st_sessions s sid) \<noteq> - 1"
    "st_nextSessionId s' = st_nextSessionId s"
    "st_sessions s' = (st_sessions s)(sid := (st_sessions s sid)
        \<lparr> aggregatedPlotTension := FheAdd (aggregatedPlotTension (st_sessions s sid)) (FromExternal i1),
          aggregatedPerformance := FheAdd (aggregatedPerformance (st_sessions s sid)) (FromExternal i2),
          aggregatedStageDesign := FheAdd (aggregatedStageDesign (st_sessions s sid)) (FromExternal i3),
          aggregatedPacing := FheAdd (aggregatedPacing (st_sessions s sid)) (FromExternal i4),
          voteCount := voteCount (st_sessions s sid) + 1 \<rparr>)"
    "st_hasVoted s' = (st_hasVoted s)(sid := (st_hasVoted s sid)(msg_sender e := True))"
    "st_decryptedResults s' = st_decryptedResults s"
    "st_authorizedTheaters s' = st_authorizedTheaters s"
proof -
  from assms have v: "validateVote e sid s = Inr ()"
    by (auto simp: submitVote_def split: sum.splits)
  from assms obtain s1 where p: "processVote e sid i1 p1 i2 p2 i3 p3 i4 p4 s = Inr s1"
    and s': "s' = emit (VoteSubmitted sid (msg_sender e) (voteCount (st_sessions s1 sid))) s1"
    by (auto simp: submitVote_def split: sum.splits)
  from v show "startTime (st_sessions s sid) \<noteq> 0" "isActive (st_sessions s sid)"
    "startTime (st_sessions s sid) \<le> block_timestamp e"
    "block_timestamp e \<le> endTime (st_sessions s sid)"
    "\<not> st_hasVoted s sid (msg_sender e)"
    by (auto simp: validateVote_def Let_def split: if_splits)
  from processVote_Inr [OF p] s'
  show "voteCount (st_sessions s sid) \<noteq> - 1"
    "st_nextSessionId s' = st_nextSessionId s"
    "st_sessions s' = (st_sessions s)(sid := (st_sessions s sid)
        \<lparr> aggregatedPlotTension := FheAdd (aggregatedPlotTension (st_sessions s sid)) (FromExternal i1),
          aggregatedPerformance := FheAdd (aggregatedPerformance (st_sessions s sid)) (FromExternal i2),
          aggregatedStageDesign := FheAdd (aggregatedStageDesign (st_sessions s sid)) (FromExternal i3),
          aggregatedPacing := FheAdd (aggregatedPacing (st_sessions s sid)) (FromExternal i4),
          voteCount := voteCount (st_sessions s sid) + 1 \<rparr>)"
    "st_hasVoted s' = (st_hasVoted s)(sid := (st_hasVoted s sid)(msg_sender e := True))"
    "st_decryptedResults s' = st_decryptedResults s"
    "st_authorizedTheaters s' = st_authorizedTheaters s"
    by simp_all
qed

lemma authorizeTheater_Inr:
  assumes "authorizeTheater e sid a s = Inr s'"
  shows "startTime (st_sessions s sid) \<noteq> 0" "msg_sender e = theaterCompany (st_sessions s sid)"
    "st_nextSessionId s' = st_nextSessionId s"
    "st_sessions s' = st_sessions s"
    "st_hasVoted s' = st_hasVoted s"
    "st_decryptedResults s' = st_decryptedResults s"
    "st_authorizedTheaters s' = (st_authorizedTheaters s)
        (sid := (st_authorizedTheaters s sid)(a := True))"
  using assms by (auto simp: authorizeTheater_def Let_def split: if_splits)

lemma requestDecryption_Inr:
  assumes "requestDecryption e sid s = Inr s'"
  shows "startTime (st_sessions s sid) \<noteq> 0" "st_authorizedTheaters s sid (msg_sender e)"
    "\<not> isActive (st_sessions s sid) \<or> endTime (st_sessions s sid) < block_timestamp e"
    "MIN_VOTES_FOR_DECRYPTION \<le> voteCount (st_sessions s sid)"
    "\<not> decryptionRequested (st_sessions s sid)"
    "st_nextSessionId s' = st_nextSessionId s"
    "st_sessions s' = (st_sessions s)(sid := (st_sessions s sid)\<lparr>decryptionRequested := True\<rparr>)"
    "st_hasVoted s' = st_hasVoted s"
    "st_decryptedResults s' = st_decryptedResults s"
    "st_authorizedTheaters s' = st_authorizedTheaters s"
  using assms by (auto simp: requestDecryption_def Let_def not_le not_less split: if_splits)

lemma endSession_Inr:
  assumes "endSession e sid s = Inr s'"
  shows "startTime (st_sessions s sid) \<noteq> 0" "msg_sender e = theaterCompany (st_sessions s sid)"
    "s' = set_session sid ((st_sessions s sid)\<lparr>isActive := False\<rparr>) s"
  using assms by (auto simp: endSession_def Let_def split: if_splits)

lemma storeDecryptedResults_Inr:
  assumes "storeDecryptedResults e sid t1 t2 t3 t4 s = Inr s'"
  shows "startTime (st_sessions s sid) \<noteq> 0" "st_authorizedTheaters s sid (msg_sender e)"
    "decryptionRequested (st_sessions s sid)" "\<not> decryptionCompleted (st_sessions s sid)"
    "st_nextSessionId s' = st_nextSessionId s"
    "st_sessions s' = (st_sessions s)(sid := (st_sessions s sid)\<lparr>decryptionCompleted := True\<rparr>)"
    "st_hasVoted s' = st_hasVoted s"
    "st_decryptedResults s' = (st_decryptedResults s)(sid :=
        \<lparr> totalPlotTension = t1, totalPerformance = t2, totalStageDesign = t3, totalPacing = t4 \<rparr>)"
    "st_authorizedTheaters s' = st_authorizedTheaters s"
  using assms
  by (auto simp: storeDecryptedResults_def Let_def split: if_splits sum.splits)

subsection \<open>Fresh slots and created sessions\<close>

lemma zero_session_simps [simp]:
  "startTime zero_session = 0" "voteCount zero_session = 0"
  "\<not> decryptionCompleted zero_session" "\<not> decryptionRequested zero_session"
  by (simp_all add: zero_session_def)

lemma fresh_above_deployed: "fresh_above deployed"
  by (simp add: fresh_above_def deployed_def)

lemma fresh_aboveD:
  "fresh_above s \<Longrightarrow> st_nextSessionId s \<le> sid \<Longrightarrow> startTime (st_sessions s sid) = 0"
  by (simp add: fresh_above_def)

lemma fresh_above_created:
  "fresh_above s \<Longrightarrow> startTime (st_sessions s sid) \<noteq> 0 \<Longrightarrow> sid < st_nextSessionId s"
  using fresh_aboveD [of s sid] by (auto simp: not_le [symmetric])

lemma fresh_above_exec:
  assumes f: "fresh_above s" and x: "exec e c s = Inr s'"
  shows "fresh_above s'"
proof (cases c)
  case (CreateSession t v st en)
  with x obtain sid where c: "createSession e t v st en s = Inr (sid, s')"
    by (auto split: sum.splits)
  note w = createSession_Inr [OF c]
  show ?thesis
    unfolding fresh_above_def
  proof (intro allI impI)
    fix k
    assume "st_nextSessionId s' \<le> k"
    with w(2,3) have "st_nextSessionId s < k"
      by (simp add: inc_less_eq_iff)
    then have "st_nextSessionId s \<le> k" and "k \<noteq> sid"
      using w(1) by auto
    with f w(4-) show "st_sessions s' k = zero_session \<and> st_hasVoted s' k = (\<lambda>_. False) \<and>
        st_authorizedTheaters s' k = (\<lambda>_. False) \<and> st_decryptedResults s' k = zero_results"
      by (simp add: fresh_above_def)
  qed
next
  case (SubmitVote sid i1 p1 i2 p2 i3 p3 i4 p4 h)
  with x have c: "submitVote e sid i1 p1 i2 p2 i3 p3 i4 p4 h s = Inr s'" by simp
  note w = submitVote_Inr [OF c]
  from fresh_above_created [OF f w(1)] f w(7-) show ?thesis
    by (auto simp: fresh_above_def)
next
  case (AuthorizeTheater sid a)
  with x have c: "authorizeTheater e sid a s = Inr s'" by simp
  note w = authorizeTheater_Inr [OF c]
  from fresh_above_created [OF f w(1)] f w(3-) show ?thesis
    by (auto simp: fresh_above_def)
next
  case (RequestDecryption sid)
  with x have c: "requestDecryption e sid s = Inr s'" by simp
  note w = requestDecryption_Inr [OF c]
  from fresh_above_created [OF f w(1)] f w(6-) show ?thesis
    by (auto simp: fresh_above_def)
next
  case (EndSession sid)
  with x have c: "endSession e sid s = Inr s'" by simp
  note w = endSession_Inr [OF c]
  from fresh_above_created [OF f w(1)] f w(3) show ?thesis
    by (auto simp: fresh_above_def)
next
  case (StoreDecryptedResults sid t1 t2 t3 t4)
  with x have c: "storeDecryptedResults e sid t1 t2 t3 t4 s = Inr s'" by simp
  note w = storeDecryptedResults_Inr [OF c]
  from fresh_above_created [OF f w(1)] f w(5-) show ?thesis
    by (auto simp: fresh_above_def)
qed

lemma fresh_above_transact: "fresh_above s \<Longrightarrow> fresh_above (transact tx s)"
  by (auto simp: transact_def split: sum.splits intro: fresh_above_exec)

lemma fresh_above_run: "fresh_above s \<Longrightarrow> fresh_above (run txs s)"
  by (induction txs arbitrary: s) (simp_all add: fresh_above_transact)

lemma run_append: "run (xs @ ys) s = run ys (run xs s)"
  by (induction xs arbitrary: s) simp_all

lemma word_less_inc: "(n::'a::len word) \<noteq> - 1 \<Longrightarrow> n < n + 1"
  using inc_less_eq_iff [of n "n + 1"] by simp

lemma exec_created:
  assumes x: "exec e c s = Inr s'" and lt: "sid < st_nextSessionId s"
  shows "sid < st_nextSessionId s' \<and>
    startTime (st_sessions s' sid) = startTime (st_sessions s sid) \<and>
    endTime (st_sessions s' sid) = endTime (st_sessions s sid) \<and>
    theaterCompany (st_sessions s' sid) = theaterCompany (st_sessions s sid) \<and>
    (decryptionRequested (st_sessions s sid) \<longrightarrow> decryptionRequested (st_sessions s' sid)) \<and>
    (decryptionCompleted (st_sessions s sid) \<longrightarrow> decryptionCompleted (st_sessions s' sid)) \<and>
    (st_hasVoted s sid a \<longrightarrow> st_hasVoted s' sid a) \<and>
    (st_authorizedTheaters s sid a \<longrightarrow> st_authorizedTheaters s' sid a) \<and>
    (decryptionCompleted (st_sessions s sid) \<longrightarrow>
       st_decryptedResults s' sid = st_decryptedResults s sid)"
proof (cases c)
  case (CreateSession t v st en)
  with x obtain k where c: "createSession e t v st en s = Inr (k, s')"
    by (auto split: sum.splits)
  note w = createSession_Inr [OF c]
  from w(1) lt have ne: "sid \<noteq> k" by auto
  from word_less_inc [OF w(2)] lt w(3) have "sid < st_nextSessionId s'" by simp
  with ne w(4-) show ?thesis by simp
next
  case (SubmitVote k i1 p1 i2 p2 i3 p3 i4 p4 h)
  with x have c: "submitVote e k i1 p1 i2 p2 i3 p3 i4 p4 h s = Inr s'" by simp
  from lt submitVote_Inr(7-) [OF c] show ?thesis by simp
next
  case (AuthorizeTheater k a')
  with x have c: "authorizeTheater e k a' s = Inr s'" by simp
  from lt authorizeTheater_Inr(3-) [OF c] show ?thesis by simp
next
  case (RequestDecryption k)
  with x have c: "requestDecryption e k s = Inr s'" by simp
  from lt requestDecryption_Inr(6-) [OF c] show ?thesis by simp
next
  case (EndSession k)
  with x have c: "endSession e k s = Inr s'" by simp
  from lt endSession_Inr(3) [OF c] show ?thesis by simp
next
  case (StoreDecryptedResults k t1 t2 t3 t4)
  with x have c: "storeDecryptedResults e k t1 t2 t3 t4 s = Inr s'" by simp
  from lt storeDecryptedResults_Inr(4-) [OF c] show ?thesis by auto
qed

lemma transact_created:
  assumes lt: "sid < st_nextSessionId s"
  shows "sid < st_nextSessionId (transact tx s) \<and>
    startTime (st_sessions (transact tx s) sid) = startTime (st_sessions s sid) \<and>
    endTime (st_sessions (transact tx s) sid) = endTime (st_sessions s sid) \<and>
    theaterCompany (st_sessions (transact tx s) sid) = theaterCompany (st_sessions s sid) \<and>
    (decryptionRequested (st_sessions s sid) \<longrightarrow>
       decryptionRequested (st_sessions (transact tx s) sid)) \<and>
    (decryptionCompleted (st_sessions s sid) \<longrightarrow>
       decryptionCompleted (st_sessions (transact tx s) sid)) \<and>
    (st_hasVoted s sid a \<longrightarrow> st_hasVoted (transact tx s) sid a) \<and>
    (st_authorizedTheaters s sid a \<longrightarrow> st_authorizedTheaters (transact tx s) sid a) \<and>
    (decryptionCompleted (st_sessions s sid) \<longrightarrow>
       st_decryptedResults (transact tx s) sid = st_decryptedResults s sid)"
proof (cases "exec (fst tx) (snd tx) s")
  case (Inl err)
  with lt show ?thesis by (simp add: transact_def)
next
  case (Inr s')
  then have "transact tx s = s'" by (simp add: transact_def)
  with exec_created [OF Inr lt, of a] show ?thesis by simp
qed

lemma run_created:
  "sid < st_nextSessionId s \<Longrightarrow>
    sid < st_nextSessionId (run txs s) \<and>
    startTime (st_sessions (run txs s) sid) = startTime (st_sessions s sid) \<and>
    endTime (st_sessions (run txs s) sid) = endTime (st_sessions s sid) \<and>
    theaterCompany (st_sessions (run txs s) sid) = theaterCompany (st_sessions s sid) \<and>
    (decryptionRequested (st_sessions s sid) \<longrightarrow>
       decryptionRequested (st_sessions (run txs s) sid)) \<and>
    (decryptionCompleted (st_sessions s sid) \<longrightarrow>
       decryptionCompleted (st_sessions (run txs s) sid)) \<and>
    (st_hasVoted s sid a \<longrightarrow> st_hasVoted (run txs s) sid a) \<and>
    (st_authorizedTheaters s sid a \<longrightarrow> st_authorizedTheaters (run txs s) sid a) \<and>
    (decryptionCompleted (st_sessions s sid) \<longrightarrow>
       st_decryptedResults (run txs s) sid = st_decryptedResults s sid)"
proof (induction txs arbitrary: s)
  case Nil
  then show ?case by simp
next
  case (Cons tx txs)
  note t = transact_created [OF Cons.prems, of tx a]
  from t have "sid < st_nextSessionId (transact tx s)" by simp
  from Cons.IH [OF this] t show ?case by simp
qed

subsection \<open>Ending a session\<close>

text \<open>
  Claim C8. \<^verbatim>\<open>endSession\<close> succeeds only for the creator of the session; it sets
  \<open>isActive\<close> to false and changes nothing else, whatever the time of the call and
  whether the session was active. It is idempotent: a second call by the creator, at any
  time, succeeds again and leaves the storage as the first call left it. Any other caller
  is rejected, before and after.
\<close>

theorem endSession_idempotent:
  assumes "endSession e sid s = Inr s'"
  shows "msg_sender e = theaterCompany (st_sessions s sid) \<and>
    \<not> isActive (st_sessions s' sid) \<and>
    s' = s\<lparr>st_sessions := (st_sessions s)(sid := (st_sessions s sid)\<lparr>isActive := False\<rparr>)\<rparr> \<and>
    (msg_sender e2 = msg_sender e \<longrightarrow> endSession e2 sid s = Inr s' \<and> endSession e2 sid s' = Inr s') \<and>
    (msg_sender e2 \<noteq> msg_sender e \<longrightarrow>
       endSession e2 sid s = Inl OnlyTheaterCompany \<and> endSession e2 sid s' = Inl OnlyTheaterCompany)"
  using assms
  by (auto simp: endSession_def Let_def set_session_def split: if_splits)

theorem endSession_idempotent_witness:
  "endSession (env_at 7 1800) 0 hamlet = Inr (transact (env_at 7 1800, EndSession 0) hamlet) \<and>
   isActive (st_sessions hamlet 0) \<and>
   \<not> isActive (st_sessions (transact (env_at 7 1800, EndSession 0) hamlet) 0) \<and>
   endSession (env_at 7 9999) 0 (transact (env_at 7 1800, EndSession 0) hamlet)
     = Inr (transact (env_at 7 1800, EndSession 0) hamlet) \<and>
   endSession (env_at 10 1800) 0 hamlet = Inl OnlyTheaterCompany"
proof -
  have h: "endSession (env_at 7 1800) 0 hamlet = Inr (transact (env_at 7 1800, EndSession 0) hamlet)"
    by (simp add: scenario_defs)
  have a: "isActive (st_sessions hamlet 0)"
    by (simp add: scenario_defs)
  have m1: "msg_sender (env_at 7 9999) = msg_sender (env_at 7 1800)"
    and m2: "msg_sender (env_at 10 1800) \<noteq> msg_sender (env_at 7 1800)"
    by (simp_all add: env_at_def)
  from endSession_idempotent [OF h, of "env_at 7 9999"] endSession_idempotent [OF h, of "env_at 10 1800"]
    h a m1 m2
  show ?thesis by simp
qed

subsection \<open>The comment hash\<close>



subsection \<open>Requesting decryption\<close>

text \<open>
  Claim C1, as amended. For an existing session and an authorized caller,
  \<^verbatim>\<open>requestDecryption\<close> fails with the still-active error when \<open>isActive\<close> is
  true and the current time is not past \<open>endTime\<close>, and in no other case: once the
  current time is past \<open>endTime\<close> it never fails with that error, whether or not
  the session was ended. With enough votes and no earlier request it then succeeds,
  sets \<open>decryptionRequested\<close> and leaves \<open>isActive\<close> as it was, so also true. A
  transaction can turn \<open>decryptionRequested\<close> from false to true only if it is
  \<^verbatim>\<open>requestDecryption\<close> on that session, and only when \<open>isActive\<close> is false or
  the current time is past \<open>endTime\<close>.
\<close>

theorem requestDecryption_manual_end_or_expiry:
  "(startTime (st_sessions s sid) \<noteq> 0 \<and> st_authorizedTheaters s sid (msg_sender e) \<and>
      isActive (st_sessions s sid) \<and> block_timestamp e \<le> endTime (st_sessions s sid)
      \<longrightarrow> requestDecryption e sid s = Inl SessionStillActive) \<and>
   (endTime (st_sessions s sid) < block_timestamp e
      \<longrightarrow> requestDecryption e sid s \<noteq> Inl SessionStillActive) \<and>
   (requestDecryption e sid s = Inl SessionStillActive
      \<longrightarrow> isActive (st_sessions s sid) \<and> block_timestamp e \<le> endTime (st_sessions s sid)) \<and>
   (startTime (st_sessions s sid) \<noteq> 0 \<and> st_authorizedTheaters s sid (msg_sender e) \<and>
      (\<not> isActive (st_sessions s sid) \<or> endTime (st_sessions s sid) < block_timestamp e) \<and>
      MIN_VOTES_FOR_DECRYPTION \<le> voteCount (st_sessions s sid) \<and>
      \<not> decryptionRequested (st_sessions s sid)
      \<longrightarrow> requestDecryption e sid s = Inr (transact (e, RequestDecryption sid) s) \<and>
          decryptionRequested (st_sessions (transact (e, RequestDecryption sid) s) sid) \<and>
          isActive (st_sessions (transact (e, RequestDecryption sid) s) sid)
            = isActive (st_sessions s sid)) \<and>
   (exec e c s = Inr s' \<and> \<not> decryptionRequested (st_sessions s sid) \<and>
      decryptionRequested (st_sessions s' sid)
      \<longrightarrow> c = RequestDecryption sid \<and>
          (\<not> isActive (st_sessions s sid) \<or> endTime (st_sessions s sid) < block_timestamp e))"
proof (intro conjI impI)
  assume "startTime (st_sessions s sid) \<noteq> 0 \<and> st_authorizedTheaters s sid (msg_sender e) \<and>
      isActive (st_sessions s sid) \<and> block_timestamp e \<le> endTime (st_sessions s sid)"
  then show "requestDecryption e sid s = Inl SessionStillActive"
    by (simp add: requestDecryption_def Let_def)
next
  assume "endTime (st_sessions s sid) < block_timestamp e"
  then have "\<not> block_timestamp e \<le> endTime (st_sessions s sid)"
    by (simp add: not_le)
  then show "requestDecryption e sid s \<noteq> Inl SessionStillActive"
    by (simp add: requestDecryption_def Let_def)
next
  assume a: "requestDecryption e sid s = Inl SessionStillActive"
  then show "isActive (st_sessions s sid)"
    by (simp add: requestDecryption_def Let_def split: if_splits)
  from a show "block_timestamp e \<le> endTime (st_sessions s sid)"
    by (simp add: requestDecryption_def Let_def split: if_splits)
next
  assume a: "startTime (st_sessions s sid) \<noteq> 0 \<and> st_authorizedTheaters s sid (msg_sender e) \<and>
      (\<not> isActive (st_sessions s sid) \<or> endTime (st_sessions s sid) < block_timestamp e) \<and>
      MIN_VOTES_FOR_DECRYPTION \<le> voteCount (st_sessions s sid) \<and>
      \<not> decryptionRequested (st_sessions s sid)"
  then have "\<not> (isActive (st_sessions s sid) \<and> block_timestamp e \<le> endTime (st_sessions s sid))"
    and "\<not> voteCount (st_sessions s sid) < MIN_VOTES_FOR_DECRYPTION"
    by (auto simp: not_less not_le)
  with a obtain s1 where r: "requestDecryption e sid s = Inr s1"
    by (simp add: requestDecryption_def Let_def)
  then have t: "transact (e, RequestDecryption sid) s = s1"
    by (simp add: transact_def)
  from r t show "requestDecryption e sid s = Inr (transact (e, RequestDecryption sid) s)"
    by simp
  from requestDecryption_Inr(7) [OF r] t
  show "decryptionRequested (st_sessions (transact (e, RequestDecryption sid) s) sid)"
    and "isActive (st_sessions (transact (e, RequestDecryption sid) s) sid)
            = isActive (st_sessions s sid)"
    by simp_all
next
  assume a: "exec e c s = Inr s' \<and> \<not> decryptionRequested (st_sessions s sid) \<and>
      decryptionRequested (st_sessions s' sid)"
  then have x: "exec e c s = Inr s'" and n: "\<not> decryptionRequested (st_sessions s sid)"
    and r: "decryptionRequested (st_sessions s' sid)" by simp_all
  have "c = RequestDecryption sid \<and>
          (\<not> isActive (st_sessions s sid) \<or> endTime (st_sessions s sid) < block_timestamp e)"
  proof (cases c)
    case (CreateSession t v st en)
    with x obtain k where c: "createSession e t v st en s = Inr (k, s')"
      by (auto split: sum.splits)
    from createSession_Inr(4) [OF c] n r show ?thesis by (simp split: if_splits)
  next
    case (SubmitVote k i1 p1 i2 p2 i3 p3 i4 p4 h)
    with x have c: "submitVote e k i1 p1 i2 p2 i3 p3 i4 p4 h s = Inr s'" by simp
    from submitVote_Inr(8) [OF c] n r show ?thesis by (simp split: if_splits)
  next
    case (AuthorizeTheater k a')
    with x have c: "authorizeTheater e k a' s = Inr s'" by simp
    from authorizeTheater_Inr(4) [OF c] n r show ?thesis by simp
  next
    case (RequestDecryption k)
    with x have c: "requestDecryption e k s = Inr s'" by simp
    from requestDecryption_Inr(3,7) [OF c] n r RequestDecryption show ?thesis
      by (auto split: if_splits)
  next
    case (EndSession k)
    with x have c: "endSession e k s = Inr s'" by simp
    from endSession_Inr(3) [OF c] n r show ?thesis by (simp split: if_splits)
  next
    case (StoreDecryptedResults k t1 t2 t3 t4)
    with x have c: "storeDecryptedResults e k t1 t2 t3 t4 s = Inr s'" by simp
    from storeDecryptedResults_Inr(6) [OF c] n r show ?thesis by (simp split: if_splits)
  qed
  then show "c = RequestDecryption sid"
    and "\<not> isActive (st_sessions s sid) \<or> endTime (st_sessions s sid) < block_timestamp e"
    by simp_all
qed

text \<open>
  The claim as first stated fails: once the end time has passed, the creator's request
  succeeds on a session that nobody ended, and \<open>decryptionRequested\<close> becomes true
  while \<open>isActive\<close> is still true.
\<close>

theorem requestDecryption_while_active_counterexample:
  "isActive (st_sessions hamlet 0) \<and>
   requestDecryption (env_at 7 5000) 0 hamlet \<noteq> Inl SessionStillActive \<and>
   requestDecryption (env_at 7 5000) 0 hamlet
     = Inr (transact (env_at 7 5000, RequestDecryption 0) hamlet) \<and>
   decryptionRequested (st_sessions (transact (env_at 7 5000, RequestDecryption 0) hamlet) 0) \<and>
   isActive (st_sessions (transact (env_at 7 5000, RequestDecryption 0) hamlet) 0)"
  by (simp add: scenario_defs)

theorem requestDecryption_manual_end_or_expiry_witness:
  "(startTime (st_sessions hamlet 0) \<noteq> 0 \<and> st_authorizedTheaters hamlet 0 (msg_sender (env_at 7 2000)) \<and>
      isActive (st_sessions hamlet 0) \<and> block_timestamp (env_at 7 2000) \<le> endTime (st_sessions hamlet 0)) \<and>
   requestDecryption (env_at 7 2000) 0 hamlet = Inl SessionStillActive \<and>
   endTime (st_sessions hamlet 0) < block_timestamp (env_at 7 5000) \<and>
   requestDecryption (env_at 7 5000) 0 hamlet \<noteq> Inl SessionStillActive \<and>
   (startTime (st_sessions hamlet 0) \<noteq> 0 \<and> st_authorizedTheaters hamlet 0 (msg_sender (env_at 7 5000)) \<and>
      MIN_VOTES_FOR_DECRYPTION \<le> voteCount (st_sessions hamlet 0) \<and>
      \<not> decryptionRequested (st_sessions hamlet 0)) \<and>
   requestDecryption (env_at 7 5000) 0 hamlet
     = Inr (transact (env_at 7 5000, RequestDecryption 0) hamlet) \<and>
   decryptionRequested (st_sessions (transact (env_at 7 5000, RequestDecryption 0) hamlet) 0) \<and>
   isActive (st_sessions (transact (env_at 7 5000, RequestDecryption 0) hamlet) 0) \<and>
   exec (env_at 7 5000) (RequestDecryption 0) hamlet
     = Inr (transact (env_at 7 5000, RequestDecryption 0) hamlet)"
proof -
  have h1: "startTime (st_sessions hamlet 0) \<noteq> 0 \<and>
      st_authorizedTheaters hamlet 0 (msg_sender (env_at 7 2000)) \<and>
      isActive (st_sessions hamlet 0) \<and> block_timestamp (env_at 7 2000) \<le> endTime (st_sessions hamlet 0)"
    by (simp add: scenario_defs)
  have h2: "endTime (st_sessions hamlet 0) < block_timestamp (env_at 7 5000)"
    by (simp add: scenario_defs)
  have h3: "startTime (st_sessions hamlet 0) \<noteq> 0 \<and>
      st_authorizedTheaters hamlet 0 (msg_sender (env_at 7 5000)) \<and>
      MIN_VOTES_FOR_DECRYPTION \<le> voteCount (st_sessions hamlet 0) \<and>
      \<not> decryptionRequested (st_sessions hamlet 0)"
    by (simp add: scenario_defs)
  have a: "isActive (st_sessions hamlet 0)"
    by (simp add: scenario_defs)
  note t1 = requestDecryption_manual_end_or_expiry
      [where s = hamlet and sid = 0 and e = "env_at 7 2000" and c = "RequestDecryption 0"
         and s' = hamlet]
  note t2 = requestDecryption_manual_end_or_expiry
      [where s = hamlet and sid = 0 and e = "env_at 7 5000" and c = "RequestDecryption 0"
         and s' = "transact (env_at 7 5000, RequestDecryption 0) hamlet"]
  from h1 t1 have c1: "requestDecryption (env_at 7 2000) 0 hamlet = Inl SessionStillActive"
    by blast
  from h2 t2 have c2: "requestDecryption (env_at 7 5000) 0 hamlet \<noteq> Inl SessionStillActive"
    by blast
  from h2 h3 t2 have c3: "requestDecryption (env_at 7 5000) 0 hamlet
       = Inr (transact (env_at 7 5000, RequestDecryption 0) hamlet) \<and>
     decryptionRequested (st_sessions (transact (env_at 7 5000, RequestDecryption 0) hamlet) 0) \<and>
     isActive (st_sessions (transact (env_at 7 5000, RequestDecryption 0) hamlet) 0)
       = isActive (st_sessions hamlet 0)"
    by blast
  from h1 h2 h3 a c1 c2 c3 show ?thesis by simp
qed

subsection \<open>Reads of a session that does not exist\<close>

text \<open>
  Claim C3, as amended. The reads that check for the session, \<^verbatim>\<open>getSessionInfo\<close>,
  \<^verbatim>\<open>getEncryptedAggregates\<close> and \<^verbatim>\<open>getDecryptedResults\<close>, revert with
  session-not-found when the start time of the slot is zero. The two flag lookups,
  \<^verbatim>\<open>hasVoted\<close> and \<^verbatim>\<open>isAuthorized\<close>, make no such check and never revert:
  they return the stored flag, which is false for a session id that was never handed
  out. Every read is a function of the storage that returns no storage, so none has a
  side effect.
\<close>

theorem reads_of_missing_session:
  "(startTime (st_sessions s sid) = 0 \<longrightarrow>
      getSessionInfo sid s = Inl SessionNotFound \<and>
      getEncryptedAggregates sid s = Inl SessionNotFound \<and>
      getDecryptedResults sid s = Inl SessionNotFound) \<and>
   hasVoted sid a s = Inr (st_hasVoted s sid a) \<and>
   isAuthorized sid a s = Inr (st_authorizedTheaters s sid a) \<and>
   (st_nextSessionId (run txs deployed) \<le> sid \<longrightarrow>
      getSessionInfo sid (run txs deployed) = Inl SessionNotFound \<and>
      getEncryptedAggregates sid (run txs deployed) = Inl SessionNotFound \<and>
      getDecryptedResults sid (run txs deployed) = Inl SessionNotFound \<and>
      hasVoted sid a (run txs deployed) = Inr False \<and>
      isAuthorized sid a (run txs deployed) = Inr False)"
proof -
  have f: "fresh_above (run txs deployed)"
    by (rule fresh_above_run [OF fresh_above_deployed])
  have "startTime (st_sessions (run txs deployed) sid) = 0 \<and>
        \<not> st_hasVoted (run txs deployed) sid a \<and>
        \<not> st_authorizedTheaters (run txs deployed) sid a"
    if "st_nextSessionId (run txs deployed) \<le> sid"
    using f that by (simp add: fresh_above_def)
  then show ?thesis
    by (simp add: getSessionInfo_def getEncryptedAggregates_def getDecryptedResults_def
        hasVoted_def isAuthorized_def Let_def)
qed

text \<open>
  The claim as first stated fails for the two flag lookups: on the id 999, which no
  session has, they return false instead of reverting.
\<close>

theorem reads_of_missing_session_counterexample:
  "st_nextSessionId hamlet \<le> 999 \<and> startTime (st_sessions hamlet 999) = 0 \<and>
   hasVoted 999 10 hamlet = Inr False \<and> hasVoted 999 10 hamlet \<noteq> Inl SessionNotFound \<and>
   isAuthorized 999 7 hamlet = Inr False \<and> isAuthorized 999 7 hamlet \<noteq> Inl SessionNotFound"
  by (simp add: scenario_defs hasVoted_def isAuthorized_def)

theorem reads_of_missing_session_witness:
  "startTime (st_sessions hamlet 999) = 0 \<and>
   getSessionInfo 999 hamlet = Inl SessionNotFound \<and>
   getEncryptedAggregates 999 hamlet = Inl SessionNotFound \<and>
   getDecryptedResults 999 hamlet = Inl SessionNotFound \<and>
   st_nextSessionId (run hamlet_txs deployed) \<le> 999 \<and>
   hasVoted 999 10 (run hamlet_txs deployed) = Inr False \<and>
   isAuthorized 999 7 (run hamlet_txs deployed) = Inr False"
proof -
  have h1: "startTime (st_sessions hamlet 999) = 0"
    by (simp add: scenario_defs)
  have h2: "st_nextSessionId (run hamlet_txs deployed) \<le> 999"
    by (simp add: scenario_defs)
  from h1 h2 reads_of_missing_session [where s = hamlet and sid = 999 and txs = hamlet_txs and a = 10]
    reads_of_missing_session [where s = hamlet and sid = 999 and txs = hamlet_txs and a = 7]
  show ?thesis by simp
qed

subsection \<open>A session created with start time zero\<close>

lemma no_session_calls:
  assumes "startTime (st_sessions s sid) = 0"
  shows "submitVote e sid i1 p1 i2 p2 i3 p3 i4 p4 h s = Inl SessionNotFound"
    "endSession e sid s = Inl SessionNotFound"
    "authorizeTheater e sid a s = Inl SessionNotFound"
    "requestDecryption e sid s = Inl SessionNotFound"
    "storeDecryptedResults e sid t1 t2 t3 t4 s = Inl SessionNotFound"
    "getSessionInfo sid s = Inl SessionNotFound"
    "getEncryptedAggregates sid s = Inl SessionNotFound"
    "getDecryptedResults sid s = Inl SessionNotFound"
  using assms
  by (simp_all add: submitVote_def validateVote_def endSession_def authorizeTheater_def
      requestDecryption_def storeDecryptedResults_def getSessionInfo_def
      getEncryptedAggregates_def getDecryptedResults_def Let_def)

text \<open>
  Claim C10. Unless the id counter is exhausted, \<^verbatim>\<open>createSession\<close> with a start
  time of zero succeeds, returns the next sequential id and increases the count that
  \<^verbatim>\<open>getTotalSessions\<close> returns by one; yet after any further transactions every
  operation on that id that checks for the session (\<^verbatim>\<open>submitVote\<close>,
  \<^verbatim>\<open>endSession\<close>, \<^verbatim>\<open>authorizeTheater\<close>, \<^verbatim>\<open>requestDecryption\<close>,
  \<^verbatim>\<open>storeDecryptedResults\<close> and the three checking reads) reverts with
  session-not-found.
\<close>

theorem createSession_zero_startTime:
  assumes n: "st_nextSessionId s \<noteq> - 1"
    and sid: "sid = st_nextSessionId s"
    and s1: "s1 = transact (e, CreateSession t v 0 en) s"
    and s2: "s2 = run txs s1"
  shows "createSession e t v 0 en s = Inr (sid, s1) \<and>
    getTotalSessions s = Inr sid \<and> getTotalSessions s1 = Inr (sid + 1) \<and> sid < sid + 1 \<and>
    submitVote e' sid i1 p1 i2 p2 i3 p3 i4 p4 h s2 = Inl SessionNotFound \<and>
    endSession e' sid s2 = Inl SessionNotFound \<and>
    authorizeTheater e' sid a s2 = Inl SessionNotFound \<and>
    requestDecryption e' sid s2 = Inl SessionNotFound \<and>
    storeDecryptedResults e' sid t1 t2 t3 t4 s2 = Inl SessionNotFound \<and>
    getSessionInfo sid s2 = Inl SessionNotFound \<and>
    getEncryptedAggregates sid s2 = Inl SessionNotFound \<and>
    getDecryptedResults sid s2 = Inl SessionNotFound"
proof -
  from n obtain s' where c: "createSession e t v 0 en s = Inr (sid, s')"
    by (simp add: createSession_def Let_def sid)
  then have "s1 = s'" by (simp add: s1 transact_def)
  with c have c1: "createSession e t v 0 en s = Inr (sid, s1)" by simp
  note w = createSession_Inr [OF c1]
  have lt: "sid < sid + 1" using n sid by (simp add: word_less_inc)
  from w have z: "startTime (st_sessions s1 sid) = 0" and b: "sid < st_nextSessionId s1"
    using lt sid by simp_all
  from run_created [OF b, of txs] z have "startTime (st_sessions s2 sid) = 0"
    by (simp add: s2)
  from no_session_calls [OF this] c1 lt w(3) sid show ?thesis
    by (simp add: getTotalSessions_def)
qed

theorem createSession_zero_startTime_witness:
  "st_nextSessionId hamlet \<noteq> - 1 \<and>
   createSession (env_at 7 2000) ''Macbeth'' ''Cellar'' 0 9000 hamlet
     = Inr (1, transact (env_at 7 2000, CreateSession ''Macbeth'' ''Cellar'' 0 9000) hamlet) \<and>
   getTotalSessions hamlet = Inr 1 \<and>
   getTotalSessions (transact (env_at 7 2000, CreateSession ''Macbeth'' ''Cellar'' 0 9000) hamlet) = Inr 2 \<and>
   endSession (env_at 7 2500) 1
     (run [(env_at 7 2100, EndSession 1)]
        (transact (env_at 7 2000, CreateSession ''Macbeth'' ''Cellar'' 0 9000) hamlet))
     = Inl SessionNotFound \<and>
   getSessionInfo 1
     (run [(env_at 7 2100, EndSession 1)]
        (transact (env_at 7 2000, CreateSession ''Macbeth'' ''Cellar'' 0 9000) hamlet))
     = Inl SessionNotFound"
proof -
  have n: "st_nextSessionId hamlet \<noteq> - 1" and k: "1 = st_nextSessionId hamlet"
    by (simp_all add: scenario_defs)
  from n createSession_zero_startTime [OF n k refl refl,
      where e = "env_at 7 2000" and t = "''Macbeth''" and v = "''Cellar''" and en = 9000
        and txs = "[(env_at 7 2100, EndSession 1)]" and e' = "env_at 7 2500"]
  show ?thesis by simp
qed

lemmas scenario2_defs = hamlet_closed_txs_def scenario_defs

subsection \<open>Storing the decrypted results\<close>

text \<open>
  Claim C6. In any storage the contract can reach, a successful
  \<^verbatim>\<open>storeDecryptedResults\<close> implies that the caller is authorized, that decryption
  was requested and that no results were stored yet; it sets \<open>decryptionCompleted\<close>
  and stores the four totals. After it, and after any further transactions, a call by
  an authorized address fails with "Results already stored", no call succeeds, and the
  stored totals stay as they are.
\<close>

theorem storeDecryptedResults_once:
  assumes st: "storeDecryptedResults e sid t1 t2 t3 t4 (run txs deployed) = Inr s1"
  shows "st_authorizedTheaters (run txs deployed) sid (msg_sender e) \<and>
    decryptionRequested (st_sessions (run txs deployed) sid) \<and>
    \<not> decryptionCompleted (st_sessions (run txs deployed) sid) \<and>
    decryptionCompleted (st_sessions s1 sid) \<and>
    st_decryptedResults s1 sid =
      \<lparr> totalPlotTension = t1, totalPerformance = t2, totalStageDesign = t3, totalPacing = t4 \<rparr> \<and>
    (st_authorizedTheaters (run txs' s1) sid (msg_sender e') \<longrightarrow>
       storeDecryptedResults e' sid u1 u2 u3 u4 (run txs' s1) = Inl (Revert ''Results already stored'')) \<and>
    storeDecryptedResults e' sid u1 u2 u3 u4 (run txs' s1) \<noteq> Inr s2 \<and>
    transact (e', StoreDecryptedResults sid u1 u2 u3 u4) (run txs' s1) = run txs' s1 \<and>
    st_decryptedResults (run txs' s1) sid =
      \<lparr> totalPlotTension = t1, totalPerformance = t2, totalStageDesign = t3, totalPacing = t4 \<rparr>"
proof -
  let ?s = "run txs deployed" and ?s2 = "run txs' s1"
  note w = storeDecryptedResults_Inr [OF st]
  have "fresh_above ?s"
    by (rule fresh_above_run [OF fresh_above_deployed])
  from fresh_above_created [OF this w(1)] w(5) have lt: "sid < st_nextSessionId s1"
    by simp
  from w have s1: "startTime (st_sessions s1 sid) \<noteq> 0" "decryptionRequested (st_sessions s1 sid)"
    "decryptionCompleted (st_sessions s1 sid)"
    "st_decryptedResults s1 sid =
      \<lparr> totalPlotTension = t1, totalPerformance = t2, totalStageDesign = t3, totalPacing = t4 \<rparr>"
    by simp_all
  from run_created [OF lt, of txs'] s1
  have s2: "startTime (st_sessions ?s2 sid) \<noteq> 0" "decryptionRequested (st_sessions ?s2 sid)"
    "decryptionCompleted (st_sessions ?s2 sid)"
    "st_decryptedResults ?s2 sid =
      \<lparr> totalPlotTension = t1, totalPerformance = t2, totalStageDesign = t3, totalPacing = t4 \<rparr>"
    by simp_all
  have again: "storeDecryptedResults e' sid u1 u2 u3 u4 ?s2 =
      (if st_authorizedTheaters ?s2 sid (msg_sender e') then Inl (Revert ''Results already stored'')
       else Inl UnauthorizedTheater)"
    using s2(1-3) by (simp add: storeDecryptedResults_def Let_def)
  then have "transact (e', StoreDecryptedResults sid u1 u2 u3 u4) ?s2 = ?s2"
    by (simp add: transact_def)
  with again w(2-4) s1(3,4) s2(4) show ?thesis by simp
qed

theorem storeDecryptedResults_once_witness:
  "storeDecryptedResults (env_at 7 2000) 0 255 263 245 262 (run hamlet_closed_txs deployed)
     = Inr (transact (env_at 7 2000, StoreDecryptedResults 0 255 263 245 262)
              (run hamlet_closed_txs deployed)) \<and>
   st_authorizedTheaters
     (run [(env_at 7 2100, AuthorizeTheater 0 8)]
        (transact (env_at 7 2000, StoreDecryptedResults 0 255 263 245 262)
           (run hamlet_closed_txs deployed))) 0 (msg_sender (env_at 8 2200)) \<and>
   storeDecryptedResults (env_at 8 2200) 0 1 2 3 4
     (run [(env_at 7 2100, AuthorizeTheater 0 8)]
        (transact (env_at 7 2000, StoreDecryptedResults 0 255 263 245 262)
           (run hamlet_closed_txs deployed)))
     = Inl (Revert ''Results already stored'') \<and>
   st_decryptedResults
     (run [(env_at 7 2100, AuthorizeTheater 0 8)]
        (transact (env_at 7 2000, StoreDecryptedResults 0 255 263 245 262)
           (run hamlet_closed_txs deployed))) 0
     = \<lparr> totalPlotTension = 255, totalPerformance = 263, totalStageDesign = 245, totalPacing = 262 \<rparr>"
proof -
  have h: "storeDecryptedResults (env_at 7 2000) 0 255 263 245 262 (run hamlet_closed_txs deployed)
     = Inr (transact (env_at 7 2000, StoreDecryptedResults 0 255 263 245 262)
              (run hamlet_closed_txs deployed))"
    by (simp add: scenario2_defs)
  have a: "st_authorizedTheaters
     (run [(env_at 7 2100, AuthorizeTheater 0 8)]
        (transact (env_at 7 2000, StoreDecryptedResults 0 255 263 245 262)
           (run hamlet_closed_txs deployed))) 0 (msg_sender (env_at 8 2200))"
    by (simp add: scenario2_defs)
  from h a storeDecryptedResults_once [OF h, where txs' = "[(env_at 7 2100, AuthorizeTheater 0 8)]"
      and e' = "env_at 8 2200" and ?u1.0 = 1 and ?u2.0 = 2 and ?u3.0 = 3 and ?u4.0 = 4]
  show ?thesis by simp
qed

subsection \<open>The checks of a vote\<close>

text \<open>
  Claim C5, as amended. \<^verbatim>\<open>submitVote\<close> checks in this order and fails at the first
  check that does not hold: the session exists (session-not-found), the session is
  active (not-active), the current time lies within the window from \<open>startTime\<close> to
  \<open>endTime\<close> (the same not-active error), the caller has not voted (duplicate-vote).
  After a successful vote, and after any further transactions, another vote from the
  same address in the same session fails whatever the ratings and the hash it submits,
  and leaves the storage unchanged: with the duplicate-vote error while the session is
  active and the time within the window, with the not-active error otherwise.
\<close>

theorem submitVote_checks_in_order:
  "(startTime (st_sessions s sid) = 0 \<longrightarrow>
      submitVote e sid i1 p1 i2 p2 i3 p3 i4 p4 h s = Inl SessionNotFound) \<and>
   (startTime (st_sessions s sid) \<noteq> 0 \<and> \<not> isActive (st_sessions s sid) \<longrightarrow>
      submitVote e sid i1 p1 i2 p2 i3 p3 i4 p4 h s = Inl SessionNotActive) \<and>
   (startTime (st_sessions s sid) \<noteq> 0 \<and> isActive (st_sessions s sid) \<and>
    (block_timestamp e < startTime (st_sessions s sid) \<or>
     endTime (st_sessions s sid) < block_timestamp e) \<longrightarrow>
      submitVote e sid i1 p1 i2 p2 i3 p3 i4 p4 h s = Inl SessionNotActive) \<and>
   (startTime (st_sessions s sid) \<noteq> 0 \<and> isActive (st_sessions s sid) \<and>
    startTime (st_sessions s sid) \<le> block_timestamp e \<and>
    block_timestamp e \<le> endTime (st_sessions s sid) \<and> st_hasVoted s sid (msg_sender e) \<longrightarrow>
      submitVote e sid i1 p1 i2 p2 i3 p3 i4 p4 h s = Inl AlreadyVoted) \<and>
   (submitVote e sid i1 p1 i2 p2 i3 p3 i4 p4 h (run txs deployed) = Inr s1 \<and>
    msg_sender e2 = msg_sender e \<longrightarrow>
      submitVote e2 sid j1 q1 j2 q2 j3 q3 j4 q4 h2 (run txs' s1) =
        (if isActive (st_sessions (run txs' s1) sid) \<and>
            startTime (st_sessions (run txs' s1) sid) \<le> block_timestamp e2 \<and>
            block_timestamp e2 \<le> endTime (st_sessions (run txs' s1) sid)
         then Inl AlreadyVoted else Inl SessionNotActive) \<and>
      transact (e2, SubmitVote sid j1 q1 j2 q2 j3 q3 j4 q4 h2) (run txs' s1) = run txs' s1)"
proof (intro conjI impI)
  assume a: "submitVote e sid i1 p1 i2 p2 i3 p3 i4 p4 h (run txs deployed) = Inr s1 \<and>
    msg_sender e2 = msg_sender e"
  then have st: "submitVote e sid i1 p1 i2 p2 i3 p3 i4 p4 h (run txs deployed) = Inr s1"
    and m: "msg_sender e2 = msg_sender e" by simp_all
  note w = submitVote_Inr [OF st]
  have "fresh_above (run txs deployed)"
    by (rule fresh_above_run [OF fresh_above_deployed])
  from fresh_above_created [OF this w(1)] w(7) have lt: "sid < st_nextSessionId s1"
    by simp
  from w have "startTime (st_sessions s1 sid) \<noteq> 0" "st_hasVoted s1 sid (msg_sender e2)"
    by (simp_all add: m)
  with run_created [OF lt, of txs' "msg_sender e2"]
  have s2: "startTime (st_sessions (run txs' s1) sid) \<noteq> 0"
    "st_hasVoted (run txs' s1) sid (msg_sender e2)"
    by simp_all
  then show r: "submitVote e2 sid j1 q1 j2 q2 j3 q3 j4 q4 h2 (run txs' s1) =
        (if isActive (st_sessions (run txs' s1) sid) \<and>
            startTime (st_sessions (run txs' s1) sid) \<le> block_timestamp e2 \<and>
            block_timestamp e2 \<le> endTime (st_sessions (run txs' s1) sid)
         then Inl AlreadyVoted else Inl SessionNotActive)"
    by (auto simp: submitVote_def validateVote_def Let_def not_less)
  then show "transact (e2, SubmitVote sid j1 q1 j2 q2 j3 q3 j4 q4 h2) (run txs' s1) = run txs' s1"
    by (simp add: transact_def)
qed (auto simp: submitVote_def validateVote_def Let_def)

text \<open>
  The claim as first stated fails twice. A second vote of the voter 10 after the
  session was ended fails with the not-active error, not the duplicate-vote error. And
  the second and third checks do not have distinct errors: a vote on the ended session
  and a vote after the end time of the active session fail with the same error.
\<close>

theorem submitVote_checks_in_order_counterexample:
  "submitVote (env_at 10 1850) 0 (rating 1) [] (rating 2) [] (rating 3) [] (rating 4) [] 0
     (run [(env_at 7 1800, EndSession 0)] hamlet) = Inl SessionNotActive \<and>
   st_hasVoted (run [(env_at 7 1800, EndSession 0)] hamlet) 0 10 \<and>
   submitVote (env_at 13 1850) 0 (rating 1) [] (rating 2) [] (rating 3) [] (rating 4) [] 0
     (run [(env_at 7 1800, EndSession 0)] hamlet) = Inl SessionNotActive \<and>
   submitVote (env_at 13 5000) 0 (rating 1) [] (rating 2) [] (rating 3) [] (rating 4) [] 0
     hamlet = Inl SessionNotActive \<and>
   isActive (st_sessions hamlet 0)"
  by (simp add: scenario_defs)

theorem submitVote_checks_in_order_witness:
  "startTime (st_sessions hamlet 5) = 0 \<and>
   submitVote (env_at 13 1800) 5 (rating 1) [] (rating 2) [] (rating 3) [] (rating 4) [] 0 hamlet
     = Inl SessionNotFound \<and>
   (startTime (st_sessions (run [(env_at 7 1800, EndSession 0)] hamlet) 0) \<noteq> 0 \<and>
    \<not> isActive (st_sessions (run [(env_at 7 1800, EndSession 0)] hamlet) 0)) \<and>
   submitVote (env_at 13 1850) 0 (rating 1) [] (rating 2) [] (rating 3) [] (rating 4) [] 0
     (run [(env_at 7 1800, EndSession 0)] hamlet) = Inl SessionNotActive \<and>
   (startTime (st_sessions hamlet 0) \<noteq> 0 \<and> isActive (st_sessions hamlet 0) \<and>
    endTime (st_sessions hamlet 0) < block_timestamp (env_at 13 5000)) \<and>
   submitVote (env_at 13 5000) 0 (rating 1) [] (rating 2) [] (rating 3) [] (rating 4) [] 0 hamlet
     = Inl SessionNotActive \<and>
   (startTime (st_sessions hamlet 0) \<le> block_timestamp (env_at 10 1800) \<and>
    block_timestamp (env_at 10 1800) \<le> endTime (st_sessions hamlet 0) \<and>
    st_hasVoted hamlet 0 (msg_sender (env_at 10 1800))) \<and>
   submitVote (env_at 10 1800) 0 (rating 1) [] (rating 2) [] (rating 3) [] (rating 4) [] 0 hamlet
     = Inl AlreadyVoted \<and>
   submitVote (env_at 13 1750) 0 (rating 70) [] (rating 71) [] (rating 72) [] (rating 73) [] 0
     (run hamlet_txs deployed)
     = Inr (transact (env_at 13 1750, vote 0 70 71 72 73) (run hamlet_txs deployed)) \<and>
   submitVote (env_at 13 1900) 0 (rating 1) [] (rating 2) [] (rating 3) [] (rating 4) [] 0
     (run [(env_at 7 1800, EndSession 0)]
        (transact (env_at 13 1750, vote 0 70 71 72 73) (run hamlet_txs deployed)))
     = Inl SessionNotActive \<and>
   submitVote (env_at 13 1900) 0 (rating 1) [] (rating 2) [] (rating 3) [] (rating 4) [] 0
     (run [] (transact (env_at 13 1750, vote 0 70 71 72 73) (run hamlet_txs deployed)))
     = Inl AlreadyVoted"
proof -
  let ?ended = "run [(env_at 7 1800, EndSession 0)] hamlet"
  have h1: "startTime (st_sessions hamlet 5) = 0"
    by (simp add: scenario_defs)
  have h2: "startTime (st_sessions ?ended 0) \<noteq> 0 \<and> \<not> isActive (st_sessions ?ended 0)"
    by (simp add: scenario_defs)
  have h3: "startTime (st_sessions hamlet 0) \<noteq> 0 \<and> isActive (st_sessions hamlet 0) \<and>
    endTime (st_sessions hamlet 0) < block_timestamp (env_at 13 5000)"
    by (simp add: scenario_defs)
  have h4: "startTime (st_sessions hamlet 0) \<le> block_timestamp (env_at 10 1800) \<and>
    block_timestamp (env_at 10 1800) \<le> endTime (st_sessions hamlet 0) \<and>
    st_hasVoted hamlet 0 (msg_sender (env_at 10 1800))"
    by (simp add: scenario_defs)
  have h5: "submitVote (env_at 13 1750) 0 (rating 70) [] (rating 71) [] (rating 72) [] (rating 73) [] 0
     (run hamlet_txs deployed)
     = Inr (transact (env_at 13 1750, vote 0 70 71 72 73) (run hamlet_txs deployed))"
    by (simp add: scenario_defs)
  have m: "msg_sender (env_at 13 1900) = msg_sender (env_at 13 1750)"
    by (simp add: env_at_def)
  let ?voted = "transact (env_at 13 1750, vote 0 70 71 72 73) (run hamlet_txs deployed)"
  have a1: "\<not> isActive (st_sessions (run [(env_at 7 1800, EndSession 0)] ?voted) 0)"
    by (simp add: scenario_defs)
  have a2: "isActive (st_sessions (run [] ?voted) 0) \<and>
      startTime (st_sessions (run [] ?voted) 0) \<le> block_timestamp (env_at 13 1900) \<and>
      block_timestamp (env_at 13 1900) \<le> endTime (st_sessions (run [] ?voted) 0)"
    by (simp add: scenario_defs)
  note t = submitVote_checks_in_order
    [where ?i1.0 = "rating 1" and ?p1.0 = "[]" and ?i2.0 = "rating 2" and ?p2.0 = "[]"
       and ?i3.0 = "rating 3" and ?p3.0 = "[]" and ?i4.0 = "rating 4" and ?p4.0 = "[]" and h = 0]
  note u = submitVote_checks_in_order
    [where s = hamlet and sid = 0 and e = "env_at 13 1750"
       and ?i1.0 = "rating 70" and ?p1.0 = "[]" and ?i2.0 = "rating 71" and ?p2.0 = "[]"
       and ?i3.0 = "rating 72" and ?p3.0 = "[]" and ?i4.0 = "rating 73" and ?p4.0 = "[]" and h = 0
       and txs = hamlet_txs and ?s1.0 = ?voted and ?e2.0 = "env_at 13 1900"
       and ?j1.0 = "rating 1" and ?q1.0 = "[]" and ?j2.0 = "rating 2" and ?q2.0 = "[]"
       and ?j3.0 = "rating 3" and ?q3.0 = "[]" and ?j4.0 = "rating 4" and ?q4.0 = "[]" and ?h2.0 = 0]
  from h1 t [where s = hamlet and sid = 5 and e = "env_at 13 1800"]
  have c1: "submitVote (env_at 13 1800) 5 (rating 1) [] (rating 2) [] (rating 3) [] (rating 4) [] 0 hamlet
     = Inl SessionNotFound" by blast
  from h2 t [where s = ?ended and sid = 0 and e = "env_at 13 1850"]
  have c2: "submitVote (env_at 13 1850) 0 (rating 1) [] (rating 2) [] (rating 3) [] (rating 4) [] 0
     ?ended = Inl SessionNotActive" by blast
  from h3 t [where s = hamlet and sid = 0 and e = "env_at 13 5000"]
  have c3: "submitVote (env_at 13 5000) 0 (rating 1) [] (rating 2) [] (rating 3) [] (rating 4) [] 0 hamlet
     = Inl SessionNotActive" by blast
  from h3 h4 t [where s = hamlet and sid = 0 and e = "env_at 10 1800"]
  have c4: "submitVote (env_at 10 1800) 0 (rating 1) [] (rating 2) [] (rating 3) [] (rating 4) [] 0 hamlet
     = Inl AlreadyVoted" by blast
  from h5 m a1 u [where txs' = "[(env_at 7 1800, EndSession 0)]"]
  have c5: "submitVote (env_at 13 1900) 0 (rating 1) [] (rating 2) [] (rating 3) [] (rating 4) [] 0
     (run [(env_at 7 1800, EndSession 0)] ?voted) = Inl SessionNotActive"
    by (simp only: simp_thms if_False)
  from h5 m a2 u [where txs' = "[]"]
  have c6: "submitVote (env_at 13 1900) 0 (rating 1) [] (rating 2) [] (rating 3) [] (rating 4) [] 0
     (run [] ?voted) = Inl AlreadyVoted"
    by (simp only: simp_thms if_True)
  from h1 h2 h3 h4 h5 c1 c2 c3 c4 c5 c6 show ?thesis
    by (simp only: simp_thms)
qed

subsection \<open>The vote count\<close>

lemma unat_inc:
  fixes v :: "'a::len word"
  assumes "v \<noteq> - 1"
  shows "unat (v + 1) = Suc (unat v)"
proof -
  have "1 + v \<noteq> 0"
  proof
    assume "1 + v = 0"
    then have "v = - 1" by (simp only: add_eq_0_iff)
    with assms show False by simp
  qed
  from unatSuc [OF this] show ?thesis by (simp add: add.commute)
qed

lemma votes_counted_deployed: "votes_counted deployed"
  by (simp add: votes_counted_def deployed_def zero_session_def)

lemma votes_counted_exec:
  assumes f: "votes_counted s" and x: "exec e c s = Inr s'"
  shows "votes_counted s'"
proof (cases c)
  case (CreateSession t v st en)
  with x obtain k where c: "createSession e t v st en s = Inr (k, s')"
    by (auto split: sum.splits)
  from f createSession_Inr(4,5) [OF c] show ?thesis
    by (simp add: votes_counted_def)
next
  case (SubmitVote k i1 p1 i2 p2 i3 p3 i4 p4 h)
  with x have c: "submitVote e k i1 p1 i2 p2 i3 p3 i4 p4 h s = Inr s'" by simp
  note w = submitVote_Inr [OF c]
  show ?thesis
    unfolding votes_counted_def
  proof
    fix j
    show "unat (voteCount (st_sessions s' j)) = card {a. st_hasVoted s' j a}"
    proof (cases "j = k")
      case True
      from w(9) have "{a. st_hasVoted s' k a} = insert (msg_sender e) {a. st_hasVoted s k a}"
        by auto
      with w(5) have "card {a. st_hasVoted s' k a} = Suc (card {a. st_hasVoted s k a})"
        by simp
      moreover from w(6,8) have "unat (voteCount (st_sessions s' k)) = Suc (unat (voteCount (st_sessions s k)))"
        by (simp add: unat_inc)
      ultimately show ?thesis
        using f True by (simp add: votes_counted_def)
    next
      case False
      with f w(8,9) show ?thesis
        by (simp add: votes_counted_def)
    qed
  qed
next
  case (AuthorizeTheater k a')
  with x have c: "authorizeTheater e k a' s = Inr s'" by simp
  from f authorizeTheater_Inr(4,5) [OF c] show ?thesis
    by (simp add: votes_counted_def)
next
  case (RequestDecryption k)
  with x have c: "requestDecryption e k s = Inr s'" by simp
  from f requestDecryption_Inr(7,8) [OF c] show ?thesis
    by (simp add: votes_counted_def)
next
  case (EndSession k)
  with x have c: "endSession e k s = Inr s'" by simp
  from f endSession_Inr(3) [OF c] show ?thesis
    by (simp add: votes_counted_def)
next
  case (StoreDecryptedResults k t1 t2 t3 t4)
  with x have c: "storeDecryptedResults e k t1 t2 t3 t4 s = Inr s'" by simp
  from f storeDecryptedResults_Inr(6,7) [OF c] show ?thesis
    by (simp add: votes_counted_def)
qed

lemma votes_counted_transact: "votes_counted s \<Longrightarrow> votes_counted (transact tx s)"
  by (auto simp: transact_def split: sum.splits intro: votes_counted_exec)

lemma votes_counted_run: "votes_counted s \<Longrightarrow> votes_counted (run txs s)"
  by (induction txs arbitrary: s) (simp_all add: votes_counted_transact)

text \<open>
  Claim C4. In every storage the contract can reach, the vote count of a session is
  the number of distinct addresses whose has-voted flag is set for it. A successful
  \<^verbatim>\<open>submitVote\<close> sets the flag of the caller, which was not set, and increases the
  vote count by exactly one, without wrapping.
\<close>

theorem voteCount_counts_voters:
  "unat (voteCount (st_sessions (run txs deployed) sid))
     = card {a. st_hasVoted (run txs deployed) sid a} \<and>
   (submitVote e sid i1 p1 i2 p2 i3 p3 i4 p4 h s = Inr s' \<longrightarrow>
      \<not> st_hasVoted s sid (msg_sender e) \<and> st_hasVoted s' sid (msg_sender e) \<and>
      voteCount (st_sessions s' sid) = voteCount (st_sessions s sid) + 1 \<and>
      unat (voteCount (st_sessions s' sid)) = unat (voteCount (st_sessions s sid)) + 1)"
proof (intro conjI impI)
  have "votes_counted (run txs deployed)"
    by (rule votes_counted_run [OF votes_counted_deployed])
  then show "unat (voteCount (st_sessions (run txs deployed) sid))
     = card {a. st_hasVoted (run txs deployed) sid a}"
    by (simp add: votes_counted_def)
next
  assume c: "submitVote e sid i1 p1 i2 p2 i3 p3 i4 p4 h s = Inr s'"
  note w = submitVote_Inr [OF c]
  from w(5) show "\<not> st_hasVoted s sid (msg_sender e)" .
  from w(9) show "st_hasVoted s' sid (msg_sender e)" by simp
  from w(8) show "voteCount (st_sessions s' sid) = voteCount (st_sessions s sid) + 1" by simp
  from w(6,8) show "unat (voteCount (st_sessions s' sid)) = unat (voteCount (st_sessions s sid)) + 1"
    by (simp add: unat_inc)
qed

theorem voteCount_counts_voters_witness:
  "submitVote (env_at 13 1750) 0 (rating 70) [] (rating 71) [] (rating 72) [] (rating 73) [] 0 hamlet
     = Inr (transact (env_at 13 1750, vote 0 70 71 72 73) hamlet) \<and>
   voteCount (st_sessions hamlet 0) = 3 \<and>
   voteCount (st_sessions (transact (env_at 13 1750, vote 0 70 71 72 73) hamlet) 0) = 4 \<and>
   st_hasVoted (transact (env_at 13 1750, vote 0 70 71 72 73) hamlet) 0 13 \<and>
   card {a. st_hasVoted (run hamlet_txs deployed) 0 a} = 3"
proof -
  have h: "submitVote (env_at 13 1750) 0 (rating 70) [] (rating 71) [] (rating 72) [] (rating 73) [] 0 hamlet
     = Inr (transact (env_at 13 1750, vote 0 70 71 72 73) hamlet)"
    by (simp add: scenario_defs)
  have v: "voteCount (st_sessions hamlet 0) = 3" "voteCount (st_sessions (run hamlet_txs deployed) 0) = 3"
    by (simp_all add: scenario_defs)
  have m: "msg_sender (env_at 13 1750) = 13"
    by (simp add: env_at_def)
  from h v m voteCount_counts_voters [where txs = hamlet_txs and sid = 0 and e = "env_at 13 1750"
      and ?i1.0 = "rating 70" and ?p1.0 = "[]" and ?i2.0 = "rating 71" and ?p2.0 = "[]"
      and ?i3.0 = "rating 72" and ?p3.0 = "[]" and ?i4.0 = "rating 73" and ?p4.0 = "[]" and h = 0
      and s = hamlet and s' = "transact (env_at 13 1750, vote 0 70 71 72 73) hamlet"]
  show ?thesis by simp
qed

subsection \<open>The accumulated totals\<close>

lemma tallied_deployed: "tallied deployed (\<lambda>_. [])"
  by (simp add: tallied_def fresh_above_deployed) (simp add: deployed_def zero_session_def)

lemma tallied_exec:
  assumes f: "tallied s T" and x: "exec e c s = Inr s'"
  shows "tallied s' (\<lambda>sid. T sid @ rated sid c)"
proof -
  from f have fr: "fresh_above s" by (simp add: tallied_def)
  have fr': "fresh_above s'" by (rule fresh_above_exec [OF fr x])
  show ?thesis
  proof (cases c)
    case (CreateSession t v st en)
    with x obtain k where c: "createSession e t v st en s = Inr (k, s')"
      by (auto split: sum.splits)
    note w = createSession_Inr [OF c]
    from f w(1) have "T k = []" by (simp add: tallied_def)
    moreover have "st_nextSessionId s \<le> j" if "st_nextSessionId s' \<le> j" for j
    proof -
      from that w(2,3) have "st_nextSessionId s < j" by (simp add: inc_less_eq_iff)
      then show ?thesis by simp
    qed
    ultimately show ?thesis
      using f fr' w(4) CreateSession by (simp add: tallied_def)
  next
    case (SubmitVote k i1 p1 i2 p2 i3 p3 i4 p4 h)
    with x have c: "submitVote e k i1 p1 i2 p2 i3 p3 i4 p4 h s = Inr s'" by simp
    note w = submitVote_Inr [OF c]
    from fresh_above_created [OF fr w(1)] have "\<not> st_nextSessionId s \<le> k" by simp
    with f fr' w(7,8) SubmitVote show ?thesis
      by (auto simp: tallied_def)
  next
    case (AuthorizeTheater k a')
    with x have c: "authorizeTheater e k a' s = Inr s'" by simp
    from f fr' authorizeTheater_Inr(3,4) [OF c] AuthorizeTheater show ?thesis
      by (simp add: tallied_def)
  next
    case (RequestDecryption k)
    with x have c: "requestDecryption e k s = Inr s'" by simp
    from f fr' requestDecryption_Inr(6,7) [OF c] RequestDecryption show ?thesis
      by (simp add: tallied_def)
  next
    case (EndSession k)
    with x have c: "endSession e k s = Inr s'" by simp
    from f fr' endSession_Inr(3) [OF c] EndSession show ?thesis
      by (simp add: tallied_def)
  next
    case (StoreDecryptedResults k t1 t2 t3 t4)
    with x have c: "storeDecryptedResults e k t1 t2 t3 t4 s = Inr s'" by simp
    from f fr' storeDecryptedResults_Inr(5,6) [OF c] StoreDecryptedResults show ?thesis
      by (simp add: tallied_def)
  qed
qed

lemma tallied_transact:
  "tallied s T \<Longrightarrow> tallied (transact tx s) (\<lambda>sid. T sid @ ballots_of_tx sid tx s)"
proof (cases "exec (fst tx) (snd tx) s")
  case (Inl err)
  then show "tallied s T \<Longrightarrow> ?thesis" by (simp add: transact_def ballots_of_tx_def)
next
  case (Inr s')
  then show "tallied s T \<Longrightarrow> ?thesis"
    using tallied_exec [of s T "fst tx" "snd tx" s'] by (simp add: transact_def ballots_of_tx_def)
qed

lemma tallied_run:
  "tallied s T \<Longrightarrow> tallied (run txs s) (\<lambda>sid. T sid @ ballots sid txs s)"
proof (induction txs arbitrary: s T)
  case Nil
  then show ?case by simp
next
  case (Cons tx txs)
  from Cons.IH [OF tallied_transact [OF Cons.prems, of tx]] show ?case by simp
qed

lemma unat_sum_list:
  "unat (sum_list (ws :: 'a::len word list)) = sum_list (map unat ws) mod 2 ^ LENGTH('a)"
  by (induction ws) (simp_all add: unat_word_ariths mod_add_right_eq)

lemma ballots_append:
  "ballots sid (xs @ ys) s = ballots sid xs s @ ballots sid ys (run xs s)"
  by (induction xs arbitrary: s) simp_all

lemma vote_accepted:
  assumes "startTime (st_sessions s sid) \<noteq> 0" "isActive (st_sessions s sid)"
    "startTime (st_sessions s sid) \<le> t" "t \<le> endTime (st_sessions s sid)"
    "\<not> st_hasVoted s sid a" "voteCount (st_sessions s sid) \<noteq> - 1"
  shows "\<exists>s'. submitVote (env_at a t) sid (rating r1) [] (rating r2) [] (rating r3) []
                 (rating r4) [] h s = Inr s'"
  using assms
  by (simp add: submitVote_def validateVote_def processVote_def fromExternal_def rating_def
      env_at_def Let_def not_less)

lemma premiere_simps:
  "st_nextSessionId premiere = 1"
  "startTime (st_sessions premiere 0) = 1000" "endTime (st_sessions premiere 0) = 4600"
  "isActive (st_sessions premiere 0)" "theaterCompany (st_sessions premiere 0) = 7"
  "\<not> decryptionRequested (st_sessions premiere 0)" "\<not> decryptionCompleted (st_sessions premiere 0)"
  "voteCount (st_sessions premiere 0) = 0"
  "decrypt (aggregatedPlotTension (st_sessions premiere 0)) = 0"
  "decrypt (aggregatedPerformance (st_sessions premiere 0)) = 0"
  "decrypt (aggregatedStageDesign (st_sessions premiere 0)) = 0"
  "decrypt (aggregatedPacing (st_sessions premiere 0)) = 0"
  "st_hasVoted premiere 0 a = False"
  "st_authorizedTheaters premiere 0 7"
  by (simp_all add: premiere_def premiere_txs_def scenario_defs)

lemma full_house_Suc:
  "full_house (Suc n) = full_house n @ [(env_at (word_of_nat (Suc n)) 1500, vote 0 100 100 100 100)]"
  by (simp add: full_house_def)

lemma voter_distinct:
  assumes "n \<le> 100000" "i < n"
  shows "(word_of_nat (Suc n) :: address) \<noteq> word_of_nat (Suc i)"
proof -
  have b: "(100001 :: nat) < 2 ^ 160" by simp
  from assms b have "Suc n < 2 ^ 160" "Suc i < 2 ^ 160" by linarith+
  then have "take_bit 160 (Suc n) = Suc n" "take_bit 160 (Suc i) = Suc i"
    by (simp_all only: take_bit_nat_eq_self_iff)
  with assms(2) show ?thesis
    by (simp only: word_of_nat_eq_iff len_bit0 len_num1) simp
qed

lemma count_not_max:
  assumes "n \<le> 100000"
  shows "(word_of_nat n :: uint256) \<noteq> - 1"
proof
  assume "(word_of_nat n :: uint256) = - 1"
  then have "(word_of_nat (Suc n) :: uint256) = word_of_nat 0" by simp
  then have "take_bit 256 (Suc n) = take_bit 256 (0::nat)"
    by (simp only: word_of_nat_eq_iff len_bit0 len_num1) simp
  moreover have "(100001 :: nat) < 2 ^ 256" by simp
  with assms have "Suc n < 2 ^ 256" by linarith
  then have "take_bit 256 (Suc n) = Suc n"
    by (simp only: take_bit_nat_eq_self_iff)
  ultimately show False by simp
qed

lemma house_full:
  assumes "n \<le> 100000"
  shows "startTime (st_sessions (run (full_house n) premiere) 0) = 1000 \<and>
    endTime (st_sessions (run (full_house n) premiere) 0) = 4600 \<and>
    isActive (st_sessions (run (full_house n) premiere) 0) \<and>
    theaterCompany (st_sessions (run (full_house n) premiere) 0) = 7 \<and>
    \<not> decryptionRequested (st_sessions (run (full_house n) premiere) 0) \<and>
    \<not> decryptionCompleted (st_sessions (run (full_house n) premiere) 0) \<and>
    voteCount (st_sessions (run (full_house n) premiere) 0) = word_of_nat n \<and>
    decrypt (aggregatedPlotTension (st_sessions (run (full_house n) premiere) 0)) = word_of_nat (100 * n) \<and>
    decrypt (aggregatedPerformance (st_sessions (run (full_house n) premiere) 0)) = word_of_nat (100 * n) \<and>
    decrypt (aggregatedStageDesign (st_sessions (run (full_house n) premiere) 0)) = word_of_nat (100 * n) \<and>
    decrypt (aggregatedPacing (st_sessions (run (full_house n) premiere) 0)) = word_of_nat (100 * n) \<and>
    (\<forall>a. st_hasVoted (run (full_house n) premiere) 0 a \<longleftrightarrow> (\<exists>i<n. a = word_of_nat (Suc i))) \<and>
    st_authorizedTheaters (run (full_house n) premiere) 0 7 \<and>
    ballots 0 (full_house n) premiere = replicate n top_marks"
  using assms
proof (induction n)
  case 0
  then show ?case by (simp add: full_house_def premiere_simps)
next
  case (Suc n)
  let ?s = "run (full_house n) premiere"
  let ?a = "word_of_nat (Suc n) :: address"
  let ?tx = "(env_at ?a 1500, vote 0 100 100 100 100)"
  from Suc.prems have n: "n \<le> 100000" by simp
  note ih = Suc.IH [OF n]
  from ih have nv: "\<not> st_hasVoted ?s 0 ?a"
    using voter_distinct [OF n] by auto
  from ih have nm: "voteCount (st_sessions ?s 0) \<noteq> - 1"
    using count_not_max [OF n] by simp
  from ih have pre: "startTime (st_sessions ?s 0) \<noteq> 0" "isActive (st_sessions ?s 0)"
    "startTime (st_sessions ?s 0) \<le> 1500" "1500 \<le> endTime (st_sessions ?s 0)"
    by simp_all
  from vote_accepted [OF pre nv nm, of 100 100 100 100 0]
  obtain s' where v: "submitVote (env_at ?a 1500) 0 (rating 100) [] (rating 100) [] (rating 100) []
      (rating 100) [] 0 ?s = Inr s'" by blast
  then have t: "transact ?tx ?s = s'" and b: "ballots_of_tx 0 ?tx ?s = [top_marks]"
    by (simp_all add: transact_def vote_def ballots_of_tx_def top_marks_def rating_def)
  have r: "run (full_house (Suc n)) premiere = s'"
    using t by (simp add: full_house_Suc run_append)
  have bs: "ballots 0 (full_house (Suc n)) premiere = replicate (Suc n) top_marks"
    using ih b by (simp add: full_house_Suc ballots_append replicate_append_same)
  note w = submitVote_Inr [OF v]
  have hv: "st_hasVoted s' 0 a \<longleftrightarrow> (\<exists>i<Suc n. a = word_of_nat (Suc i))" for a
    using ih w(9) by (auto simp: env_at_def less_Suc_eq)
  from ih w(8,11) hv bs show ?case
    unfolding r by (simp add: rating_def algebra_simps)
qed

lemma premiere_run: "run (premiere_txs @ txs) deployed = run txs premiere"
  by (simp add: run_append premiere_def)

lemma premiere_ballots: "ballots 0 (premiere_txs @ txs) deployed = ballots 0 txs premiere"
  by (simp add: ballots_append premiere_def premiere_txs_def ballots_of_tx_def split: sum.splits)

text \<open>
  Claim C2, as amended. In every storage the contract can reach, each of the four
  accumulators of a session decrypts to the sum, modulo \<open>2 ^ 16\<close>, of the plaintext
  ratings of the votes cast with success in that session; the accumulator starts from
  an encrypted zero at creation. It is the exact arithmetic sum whenever that sum is
  below 65536, as in the scenario, where the plot-tension ratings 80, 90 and 85
  decrypt to 255.
\<close>

theorem aggregates_decrypt_to_sum:
  "unat (decrypt (aggregatedPlotTension (st_sessions (run txs deployed) sid)))
     = exact_sum b_plotTension (ballots sid txs deployed) mod 65536 \<and>
   unat (decrypt (aggregatedPerformance (st_sessions (run txs deployed) sid)))
     = exact_sum b_performance (ballots sid txs deployed) mod 65536 \<and>
   unat (decrypt (aggregatedStageDesign (st_sessions (run txs deployed) sid)))
     = exact_sum b_stageDesign (ballots sid txs deployed) mod 65536 \<and>
   unat (decrypt (aggregatedPacing (st_sessions (run txs deployed) sid)))
     = exact_sum b_pacing (ballots sid txs deployed) mod 65536 \<and>
   (exact_sum b_plotTension (ballots sid txs deployed) < 65536 \<longrightarrow>
      unat (decrypt (aggregatedPlotTension (st_sessions (run txs deployed) sid)))
        = exact_sum b_plotTension (ballots sid txs deployed)) \<and>
   (exact_sum b_performance (ballots sid txs deployed) < 65536 \<longrightarrow>
      unat (decrypt (aggregatedPerformance (st_sessions (run txs deployed) sid)))
        = exact_sum b_performance (ballots sid txs deployed)) \<and>
   (exact_sum b_stageDesign (ballots sid txs deployed) < 65536 \<longrightarrow>
      unat (decrypt (aggregatedStageDesign (st_sessions (run txs deployed) sid)))
        = exact_sum b_stageDesign (ballots sid txs deployed)) \<and>
   (exact_sum b_pacing (ballots sid txs deployed) < 65536 \<longrightarrow>
      unat (decrypt (aggregatedPacing (st_sessions (run txs deployed) sid)))
        = exact_sum b_pacing (ballots sid txs deployed))"
proof -
  from tallied_run [OF tallied_deployed, of txs]
  have t: "tallied (run txs deployed) (\<lambda>sid. ballots sid txs deployed)" by simp
  have e: "unat (sum_list (map f bs)) = exact_sum f bs mod 65536" for f and bs :: "ballot list"
    using unat_sum_list [of "map f bs"] by (simp add: exact_sum_def comp_def)
  from t have
    "decrypt (aggregatedPlotTension (st_sessions (run txs deployed) sid))
       = sum_list (map b_plotTension (ballots sid txs deployed))"
    "decrypt (aggregatedPerformance (st_sessions (run txs deployed) sid))
       = sum_list (map b_performance (ballots sid txs deployed))"
    "decrypt (aggregatedStageDesign (st_sessions (run txs deployed) sid))
       = sum_list (map b_stageDesign (ballots sid txs deployed))"
    "decrypt (aggregatedPacing (st_sessions (run txs deployed) sid))
       = sum_list (map b_pacing (ballots sid txs deployed))"
    by (simp_all add: tallied_def)
  then show ?thesis
    by (simp add: e)
qed

text \<open>
  The claim as first stated fails when the sum does not fit in 16 bits: with 656
  voters who all give the rating 100, the exact sum of the plot-tension ratings is
  65600, which no \<^verbatim>\<open>euint16\<close> holds, and the accumulator decrypts to 64.
\<close>

theorem aggregates_decrypt_to_sum_counterexample:
  "length (ballots 0 (premiere_txs @ full_house 656) deployed) = 656 \<and>
   set (ballots 0 (premiere_txs @ full_house 656) deployed) = {top_marks} \<and>
   exact_sum b_plotTension (ballots 0 (premiere_txs @ full_house 656) deployed) = 65600 \<and>
   unat (decrypt (aggregatedPlotTension
     (st_sessions (run (premiere_txs @ full_house 656) deployed) 0))) = 64"
proof -
  have "(656 :: nat) \<le> 100000" by simp
  note h = house_full [OF this]
  from h have b: "ballots 0 (premiere_txs @ full_house 656) deployed = replicate 656 top_marks"
    by (simp only: premiere_ballots)
  from h have d: "decrypt (aggregatedPlotTension
     (st_sessions (run (premiere_txs @ full_house 656) deployed) 0)) = word_of_nat (100 * 656)"
    by (simp only: premiere_run)
  have "exact_sum b_plotTension (replicate 656 top_marks) = 65600"
    by (simp add: exact_sum_def top_marks_def sum_list_replicate)
  with b d show ?thesis by simp
qed

theorem aggregates_decrypt_to_sum_witness:
  "exact_sum b_plotTension (ballots 0 hamlet_txs deployed) = 255 \<and>
   exact_sum b_performance (ballots 0 hamlet_txs deployed) = 263 \<and>
   exact_sum b_stageDesign (ballots 0 hamlet_txs deployed) = 245 \<and>
   exact_sum b_pacing (ballots 0 hamlet_txs deployed) = 262 \<and>
   unat (decrypt (aggregatedPlotTension (st_sessions (run hamlet_txs deployed) 0))) = 255 \<and>
   unat (decrypt (aggregatedPerformance (st_sessions (run hamlet_txs deployed) 0))) = 263 \<and>
   unat (decrypt (aggregatedStageDesign (st_sessions (run hamlet_txs deployed) 0))) = 245 \<and>
   unat (decrypt (aggregatedPacing (st_sessions (run hamlet_txs deployed) 0))) = 262"
proof -
  have b: "ballots 0 hamlet_txs deployed =
     [\<lparr> b_plotTension = 80, b_performance = 85, b_stageDesign = 75, b_pacing = 90 \<rparr>,
      \<lparr> b_plotTension = 90, b_performance = 88, b_stageDesign = 82, b_pacing = 85 \<rparr>,
      \<lparr> b_plotTension = 85, b_performance = 90, b_stageDesign = 88, b_pacing = 87 \<rparr>]"
    by (simp add: ballots_of_tx_def scenario_defs)
  have s: "exact_sum b_plotTension (ballots 0 hamlet_txs deployed) = 255"
    "exact_sum b_performance (ballots 0 hamlet_txs deployed) = 263"
    "exact_sum b_stageDesign (ballots 0 hamlet_txs deployed) = 245"
    "exact_sum b_pacing (ballots 0 hamlet_txs deployed) = 262"
    unfolding b by (simp_all add: exact_sum_def)
  from s aggregates_decrypt_to_sum [of hamlet_txs 0] show ?thesis
    by simp
qed

subsection \<open>The decrypted results and their averages\<close>

lemma average_small_count:
  assumes "vc < 65536"
  shows "\<exists>a. average t vc = Inr a \<and> unat a = unat t div unat vc"
proof (cases "vc = 0")
  case True
  then show ?thesis by (simp add: average_def)
next
  case False
  from assms have "unat vc < 65536" by (simp add: word_less_nat_alt)
  then have u: "unat (ucast vc :: uint16) = unat vc"
    by (simp add: unsigned_ucast_eq take_bit_nat_eq_self_iff)
  with False have "(ucast vc :: uint16) \<noteq> 0"
    by (metis unat_eq_zero unsigned_0)
  with False u show ?thesis
    by (simp add: average_def word_greater_zero_iff unat_div)
qed

lemma average_wrapped_count:
  "average t 65536 = Inl (Panic 18)" "average 100 65537 = Inr 100"
  by (simp_all add: average_def)

lemma closing_full_house:
  assumes "n \<le> 100000" "0 < n" "average 100 (word_of_nat n) = Inr a"
  shows "getDecryptedResults 0 (run (full_house n @ closing) premiere)
    = Inr (100, 100, 100, 100, a, a, a, a, word_of_nat n)"
proof -
  let ?s0 = "run (full_house n) premiere"
  note h = house_full [OF assms(1)]
  from h obtain s1 where e1: "endSession (env_at 7 1800) 0 ?s0 = Inr s1"
    by (simp add: endSession_def env_at_def Let_def)
  note w1 = endSession_Inr(3) [OF e1]
  have one: "(1 :: uint256) \<le> word_of_nat n"
  proof -
    have "(100000 :: nat) < 2 ^ 256" by simp
    with assms(1) have "n < 2 ^ 256" by linarith
    then have "unat (word_of_nat n :: uint256) = n"
      by (simp add: unat_of_nat)
    with assms(2) show ?thesis by (simp add: word_le_nat_alt)
  qed
  then have nz: "(word_of_nat n :: uint256) \<noteq> 0" by auto
  from h w1 nz obtain s2 where e2: "requestDecryption (env_at 7 1900) 0 s1 = Inr s2"
    by (simp add: requestDecryption_def env_at_def Let_def MIN_VOTES_FOR_DECRYPTION_def not_less)
  note w2 = requestDecryption_Inr(7,10) [OF e2]
  from h w1 w2 assms(3) obtain s3 where
    e3: "storeDecryptedResults (env_at 7 2000) 0 100 100 100 100 s2 = Inr s3"
    by (simp add: storeDecryptedResults_def env_at_def Let_def)
  note w3 = storeDecryptedResults_Inr(6,8) [OF e3]
  from e1 e2 e3 have r: "run (full_house n @ closing) premiere = s3"
    by (simp add: run_append closing_def transact_def)
  from h w1 w2 w3 assms(3) show ?thesis
    unfolding r by (simp add: getDecryptedResults_def Let_def)
qed

lemma getDecryptedResults_small_count:
  assumes "startTime (st_sessions s sid) \<noteq> 0" "decryptionCompleted (st_sessions s sid)"
    "voteCount (st_sessions s sid) < 65536"
  shows "\<exists>a1 a2 a3 a4. getDecryptedResults sid s =
      Inr (totalPlotTension (st_decryptedResults s sid), totalPerformance (st_decryptedResults s sid),
           totalStageDesign (st_decryptedResults s sid), totalPacing (st_decryptedResults s sid),
           a1, a2, a3, a4, voteCount (st_sessions s sid)) \<and>
    unat a1 = unat (totalPlotTension (st_decryptedResults s sid)) div unat (voteCount (st_sessions s sid)) \<and>
    unat a2 = unat (totalPerformance (st_decryptedResults s sid)) div unat (voteCount (st_sessions s sid)) \<and>
    unat a3 = unat (totalStageDesign (st_decryptedResults s sid)) div unat (voteCount (st_sessions s sid)) \<and>
    unat a4 = unat (totalPacing (st_decryptedResults s sid)) div unat (voteCount (st_sessions s sid))"
proof -
  let ?r = "st_decryptedResults s sid" and ?vc = "voteCount (st_sessions s sid)"
  from average_small_count [OF assms(3)] obtain a1 a2 a3 a4 where
    "average (totalPlotTension ?r) ?vc = Inr a1 \<and> unat a1 = unat (totalPlotTension ?r) div unat ?vc"
    "average (totalPerformance ?r) ?vc = Inr a2 \<and> unat a2 = unat (totalPerformance ?r) div unat ?vc"
    "average (totalStageDesign ?r) ?vc = Inr a3 \<and> unat a3 = unat (totalStageDesign ?r) div unat ?vc"
    "average (totalPacing ?r) ?vc = Inr a4 \<and> unat a4 = unat (totalPacing ?r) div unat ?vc"
    by metis
  with assms(1,2) show ?thesis
    by (simp add: getDecryptedResults_def Let_def)
qed

lemma getDecryptedResults_before_completion:
  "\<not> decryptionCompleted (st_sessions s sid) \<Longrightarrow>
     getDecryptedResults sid s = Inl SessionNotFound \<or>
     getDecryptedResults sid s = Inl (Revert ''Results not yet decrypted'')"
  by (simp add: getDecryptedResults_def Let_def)

text \<open>
  Claim C7. The claim holds for fewer than 65536 votes, as the two lemmas above show.
  The code departs from it beyond: the average divides by \<^verbatim>\<open>uint16(voteCount)\<close>,
  the low 16 bits of the count. With 65537 votes and a stored total of 100, which the
  contract reaches, \<^verbatim>\<open>getDecryptedResults\<close> returns the average 100, where the
  total divided by the vote count is 0.
\<close>

theorem getDecryptedResults_wrapped_count:
  "getDecryptedResults 0 (run (premiere_txs @ full_house 65537 @ closing) deployed)
     = Inr (100, 100, 100, 100, 100, 100, 100, 100, 65537) \<and>
   (100 :: nat) div 65537 = 0"
proof -
  have "average 100 (word_of_nat 65537) = Inr 100"
    by (simp add: average_def)
  from closing_full_house [OF _ _ this] show ?thesis
    by (simp add: premiere_run)
qed

end
